theory Spec2Isabelle
  imports Complex_Main "HOL-Library.Sublist"
begin

section \<open>Strings and numbers of the host language\<close>

text \<open>
  Source strings are modelled as HOL strings. The built-in string methods the source
  calls (\<^verbatim>\<open>toLowerCase\<close>, \<^verbatim>\<open>trim\<close>, \<^verbatim>\<open>includes\<close>, \<^verbatim>\<open>lastIndexOf\<close>, \<^verbatim>\<open>slice\<close>) are written
  out for ASCII text: case mapping covers the letters A to Z and white space is the ASCII
  white space (space, tab, line feed, vertical tab, form feed, carriage return).
  Millisecond quantities, attempt numbers and counters are integers (\<^typ>\<open>int\<close>);
  confidence values are idealised as \<^typ>\<open>real\<close>.
\<close>

definition toLowerCaseChar :: "char \<Rightarrow> char" where
  "toLowerCaseChar c =
     (case map_of (zip ''ABCDEFGHIJKLMNOPQRSTUVWXYZ'' ''abcdefghijklmnopqrstuvwxyz'') c of
        Some l \<Rightarrow> l
      | None \<Rightarrow> c)"

definition toLowerCase :: "string \<Rightarrow> string" where
  "toLowerCase s = map toLowerCaseChar s"

definition isWhitespace :: "char \<Rightarrow> bool" where
  "isWhitespace c = (c \<in> set [CHR '' '', CHR 0x09, CHR 0x0A, CHR 0x0B, CHR 0x0C, CHR 0x0D])"

definition trim :: "string \<Rightarrow> string" where
  "trim s = rev (dropWhile isWhitespace (rev (dropWhile isWhitespace s)))"

text \<open>\<^verbatim>\<open>s.includes(p)\<close>: some position of \<open>s\<close> starts an occurrence of \<open>p\<close>.\<close>

fun js_includes :: "string \<Rightarrow> string \<Rightarrow> bool" where
  "js_includes [] p = (p = [])"
| "js_includes (c # cs) p = (prefix p (c # cs) \<or> js_includes cs p)"

text \<open>\<^verbatim>\<open>String(n)\<close> and template interpolation of an integer: its decimal numeral.\<close>

fun digits :: "nat \<Rightarrow> string" where
  "digits n = (if n < 10 then [''0123456789'' ! n]
               else digits (n div 10) @ [''0123456789'' ! (n mod 10)])"

declare digits.simps [simp del]

definition String_of_int :: "int \<Rightarrow> string" where
  "String_of_int i = (if i < 0 then CHR ''-'' # digits (nat (- i)) else digits (nat i))"

section \<open>Structured errors (errors.ts)\<close>

datatype ErrorCode =
    RATE_LIMIT
  | API_KEY_MISSING
  | API_KEY_INVALID
  | SCHEMA_VALIDATION_FAILED
  | PARSE_FAILED
  | TIMEOUT
  | INVALID_INPUT
  | EXTRACTOR_NOT_FOUND
  | NETWORK_ERROR
  | UNKNOWN

text \<open>
  Error objects. \<open>Error m\<close> is an \<^verbatim>\<open>Error\<close> that is not an \<^verbatim>\<open>ExtractionError\<close>, with message
  \<open>m\<close>. \<open>ExtractionError c m cause\<close> is an instance of the class \<^verbatim>\<open>ExtractionError\<close> with
  code \<open>c\<close>, message \<open>m\<close> and \<^verbatim>\<open>metadata.cause\<close> (the other metadata fields are not read by
  the scheduler or the pipeline and are left out). \<open>RateLimitError m retryAfterMs
  attemptsMade\<close> is the subclass of that name, whose code is \<^verbatim>\<open>RATE_LIMIT\<close>.
\<close>

datatype js_error =
    Error string
  | ExtractionError ErrorCode string "js_error option"
  | RateLimitError string int int

text \<open>
  What a \<^verbatim>\<open>throw\<close> or a rejected promise carries: an error object, or any other value,
  which the source only ever reads through \<^verbatim>\<open>String(value)\<close>.
\<close>

datatype thrown = Thrown js_error | ThrownValue string

fun message :: "js_error \<Rightarrow> string" where
  "message (Error m) = m"
| "message (ExtractionError c m cause) = m"
| "message (RateLimitError m r a) = m"

fun code :: "js_error \<Rightarrow> ErrorCode option" where
  "code (Error m) = None"
| "code (ExtractionError c m cause) = Some c"
| "code (RateLimitError m r a) = Some RATE_LIMIT"

fun instanceof_ExtractionError :: "js_error \<Rightarrow> bool" where
  "instanceof_ExtractionError (Error m) = False"
| "instanceof_ExtractionError (ExtractionError c m cause) = True"
| "instanceof_ExtractionError (RateLimitError m r a) = True"

text \<open>The message of \<^verbatim>\<open>wrapError\<close>: \<^verbatim>\<open>context ? `${context}: ${message}` : message\<close>.
  An absent and an empty context are both falsy.\<close>

definition with_context :: "string option \<Rightarrow> string \<Rightarrow> string" where
  "with_context context msg =
     (case context of
        None \<Rightarrow> msg
      | Some c \<Rightarrow> if c = [] then msg else c @ '': '' @ msg)"

fun wrapError :: "thrown \<Rightarrow> string option \<Rightarrow> js_error" where
  "wrapError (Thrown (Error m)) context =
     ExtractionError UNKNOWN (with_context context m) (Some (Error m))"
| "wrapError (Thrown (ExtractionError c m cause)) context = ExtractionError c m cause"
| "wrapError (Thrown (RateLimitError m r a)) context = RateLimitError m r a"
| "wrapError (ThrownValue s) context = ExtractionError UNKNOWN (with_context context s) None"

section \<open>The environment: clock, timers and the external operation\<close>

text \<open>
  The scheduler reads the wall clock, sleeps, and invokes a caller-supplied asynchronous
  operation. These effects are made explicit. The clock is an arbitrary sequence of
  readings: \<open>clock n\<close> is what the \<open>n\<close>-th call of \<^verbatim>\<open>Date.now()\<close> returns, so every theorem
  holds whatever time the timers and the operation really take. A \<open>world\<close> counts the
  clock readings and the invocations of the external operation made so far and records,
  in order, every \<^verbatim>\<open>sleep(ms)\<close> (tagged with its call site: the slot wait of
  \<^verbatim>\<open>waitForNextSlot\<close> or the backoff of \<^verbatim>\<open>execute\<close>) and every invocation. Logging is not
  modelled.
\<close>

datatype event = SlotWait int | Backoff int | Invoke

record world =
  reads :: nat
  calls :: nat
  trace :: "event list"

definition Date_now :: "(nat \<Rightarrow> int) \<Rightarrow> world \<Rightarrow> int \<times> world" where
  "Date_now clock w = (clock (reads w), w\<lparr>reads := Suc (reads w)\<rparr>)"

definition sleep :: "(int \<Rightarrow> event) \<Rightarrow> int \<Rightarrow> world \<Rightarrow> world" where
  "sleep site ms w = w\<lparr>trace := trace w @ [site ms]\<rparr>"

text \<open>
  An operation is a function on the world that returns a value (\<open>Inr\<close>) or what it threw
  (\<open>Inl\<close>). \<open>invoke outcomes\<close> is the operation whose \<open>k\<close>-th invocation (counted over the
  whole world) ends as \<open>outcomes k\<close> says.
\<close>

type_synonym 'a operation = "world \<Rightarrow> (thrown + 'a) \<times> world"

definition invoke :: "(nat \<Rightarrow> thrown + 'a) \<Rightarrow> 'a operation" where
  "invoke outcomes w =
     (outcomes (calls w), w\<lparr>calls := Suc (calls w), trace := trace w @ [Invoke]\<rparr>)"

section \<open>The call scheduler (rate-limiter.ts)\<close>

record RateLimitConfig =
  delayMs :: int
  maxRetries :: int

definition DEFAULT_RATE_LIMIT :: RateLimitConfig where
  "DEFAULT_RATE_LIMIT = \<lparr>delayMs = 7000, maxRetries = 3\<rparr>"

record RateLimiterMetrics =
  totalExecutions :: int
  totalWaitTimeMs :: int
  totalRetries :: int
  totalFailures :: int
  lastExecutionAt :: "int option"

record RateLimiter =
  lastCallTime :: int
  config :: RateLimitConfig
  metrics :: RateLimiterMetrics

text \<open>\<^verbatim>\<open>Partial<RateLimitConfig>\<close>: each key may be absent.\<close>

record PartialRateLimitConfig =
  delayMs_opt :: "int option"
  maxRetries_opt :: "int option"

definition zero_metrics :: RateLimiterMetrics where
  "zero_metrics = \<lparr>totalExecutions = 0, totalWaitTimeMs = 0, totalRetries = 0,
     totalFailures = 0, lastExecutionAt = None\<rparr>"

text \<open>The constructor: \<^verbatim>\<open>{ ...DEFAULT_RATE_LIMIT, ...config }\<close>, last call time 0, counters 0.\<close>

definition new_RateLimiter :: "PartialRateLimitConfig \<Rightarrow> RateLimiter" where
  "new_RateLimiter partial =
     \<lparr>lastCallTime = 0,
      config = \<lparr>delayMs = (case delayMs_opt partial of Some d \<Rightarrow> d
                            | None \<Rightarrow> delayMs DEFAULT_RATE_LIMIT),
                maxRetries = (case maxRetries_opt partial of Some m \<Rightarrow> m
                            | None \<Rightarrow> maxRetries DEFAULT_RATE_LIMIT)\<rparr>,
      metrics = zero_metrics\<rparr>"

definition waitForNextSlot ::
  "(nat \<Rightarrow> int) \<Rightarrow> RateLimiter \<Rightarrow> world \<Rightarrow> int \<times> RateLimiter \<times> world" where
  "waitForNextSlot clock rl w =
     (let (now, w1) = Date_now clock w;
          elapsed = now - lastCallTime rl;
          remaining = delayMs (config rl) - elapsed;
          (rl1, w2) =
            (if remaining > 0
             then (rl\<lparr>metrics := (metrics rl)\<lparr>totalWaitTimeMs :=
                       totalWaitTimeMs (metrics rl) + remaining\<rparr>\<rparr>,
                   sleep SlotWait remaining w1)
             else (rl, w1));
          (t, w3) = Date_now clock w2
      in (max 0 remaining, rl1\<lparr>lastCallTime := t\<rparr>, w3))"

definition isRateLimitError :: "js_error \<Rightarrow> bool" where
  "isRateLimitError error =
     (let msg = toLowerCase (message error)
      in js_includes msg ''429'' \<or>
         js_includes msg ''rate limit'' \<or>
         js_includes msg ''rate_limit'' \<or>
         js_includes msg ''quota'' \<or>
         js_includes msg ''too many requests'')"

text \<open>\<^verbatim>\<open>error instanceof Error ? error : new Error(String(error))\<close>\<close>

fun as_Error :: "thrown \<Rightarrow> js_error" where
  "as_Error (Thrown e) = e"
| "as_Error (ThrownValue s) = Error s"

definition rate_limit_message :: "string \<Rightarrow> int \<Rightarrow> string" where
  "rate_limit_message operationName attempt =
     operationName @ '' failed: Rate limit exceeded after '' @ String_of_int attempt @
     '' attempts. Consider increasing delayMs or reducing request volume.''"

text \<open>
  The retry loop of \<^verbatim>\<open>execute\<close>, from attempt number \<open>attempt\<close> on, with the last error seen
  so far. The statement after the loop throws the last error, or a fresh \<^verbatim>\<open>Error\<close> when
  the loop body never ran.
\<close>

function execute_loop ::
  "(nat \<Rightarrow> int) \<Rightarrow> 'a operation \<Rightarrow> string \<Rightarrow> int \<Rightarrow> js_error option \<Rightarrow>
   RateLimiter \<Rightarrow> world \<Rightarrow> (thrown + 'a) \<times> RateLimiter \<times> world" where
  "execute_loop clock fn operationName attempt lastError rl w =
     (if attempt \<le> maxRetries (config rl) then
        (case waitForNextSlot clock rl w of (waited, rl1, w1) \<Rightarrow>
           (case fn w1 of
              (Inr result, w2) \<Rightarrow>
                (case Date_now clock w2 of (t, w3) \<Rightarrow>
                   (Inr result,
                    rl1\<lparr>metrics := (metrics rl1)\<lparr>
                      totalExecutions := totalExecutions (metrics rl1) + 1,
                      lastExecutionAt := Some t\<rparr>\<rparr>,
                    w3))
            | (Inl error, w2) \<Rightarrow>
                (if isRateLimitError (as_Error error) \<and> attempt < maxRetries (config rl1)
                 then
                   execute_loop clock fn operationName (attempt + 1) (Some (as_Error error))
                     (rl1\<lparr>metrics := (metrics rl1)\<lparr>
                        totalRetries := totalRetries (metrics rl1) + 1,
                        totalWaitTimeMs := totalWaitTimeMs (metrics rl1) +
                          2 ^ nat attempt * delayMs (config rl1)\<rparr>\<rparr>)
                     (sleep Backoff (2 ^ nat attempt * delayMs (config rl1)) w2)
                 else
                   (Inl (Thrown
                      (if isRateLimitError (as_Error error)
                       then RateLimitError (rate_limit_message operationName attempt)
                              (delayMs (config rl1) * 2 ^ nat attempt) attempt
                       else wrapError (Thrown (as_Error error)) (Some operationName))),
                    rl1\<lparr>metrics := (metrics rl1)\<lparr>
                      totalFailures := totalFailures (metrics rl1) + 1\<rparr>\<rparr>,
                    w2))))
      else
        (Inl (Thrown (case lastError of
                        Some e \<Rightarrow> e
                      | None \<Rightarrow> Error (operationName @ '' failed after '' @
                                  String_of_int (maxRetries (config rl)) @ '' attempts''))),
         rl, w))"
  by pat_completeness auto
termination
  by (relation "measure (\<lambda>(clock, fn, operationName, attempt, lastError, rl, w).
                           nat (maxRetries (config rl) + 1 - attempt))")
     (auto simp add: waitForNextSlot_def Date_now_def Let_def split: prod.splits if_splits)

declare execute_loop.simps [simp del]

definition execute ::
  "(nat \<Rightarrow> int) \<Rightarrow> 'a operation \<Rightarrow> string \<Rightarrow> RateLimiter \<Rightarrow> world \<Rightarrow>
   (thrown + 'a) \<times> RateLimiter \<times> world" where
  "execute clock fn operationName rl w = execute_loop clock fn operationName 1 None rl w"

definition getConfig :: "RateLimiter \<Rightarrow> RateLimitConfig" where
  "getConfig rl = config rl"

definition getMetrics :: "RateLimiter \<Rightarrow> RateLimiterMetrics" where
  "getMetrics rl = metrics rl"

text \<open>\<^verbatim>\<open>resetMetrics\<close> assigns a fresh metrics object, without \<^verbatim>\<open>lastExecutionAt\<close>.\<close>

definition resetMetrics :: "RateLimiter \<Rightarrow> RateLimiter" where
  "resetMetrics rl = rl\<lparr>metrics := zero_metrics\<rparr>"

section \<open>The extraction pipeline (extraction-pipeline.ts)\<close>

text \<open>
  Extracted items are the objects that the extractor's schema validated (the extractors of
  the repository all declare \<^verbatim>\<open>z.object\<close> schemas): ordered lists of properties with JSON
  values. Reading a property that the object does not have yields \<^verbatim>\<open>undefined\<close>, here \<open>None\<close>.
  JSON has no \<^verbatim>\<open>NaN\<close> and no infinities, so a number is a real. Of a chunk, the optional
  \<^verbatim>\<open>metadata\<close> is never read and is left out; of an extractor, the schema is left out, since
  validation happens inside the external generation call.
\<close>

datatype jsval =
    JNull
  | JBool bool
  | JNum real
  | JStr string
  | JArr "jsval list"
  | JObj "(string \<times> jsval) list"

type_synonym item = "(string \<times> jsval) list"

record PageChunk =
  content :: string
  pageNumber :: int

record ExtractorConfig =
  name :: string
  description :: string
  buildPrompt :: "string \<Rightarrow> string"
  rateLimit :: "RateLimitConfig option"

record PageExtractionResult =
  items :: "item list"
  pageNumber :: int
  success :: bool
  error :: "string option"
  errorCode :: "ErrorCode option"

text \<open>
  The optional \<^verbatim>\<open>averageConfidence\<close>: \<open>Undefined\<close> when the field is left out, \<open>Number x\<close>
  when it is the number \<open>x\<close>. \<open>Coerced\<close> stands for the values the reduction produces once
  an addend is a truthy value that the \<^verbatim>\<open>+\<close> operator turns into a string (a non-empty
  string, an array, an object): the sum is then a concatenation, whose value is not
  modelled.
\<close>

datatype average = Undefined | Number real | Coerced

record ExtractionMetrics =
  totalItems :: nat
  itemsBeforeDedup :: nat
  processingTimeMs :: int
  averageConfidence :: average

record ExtractionResult =
  items :: "item list"
  pagesProcessed :: nat
  pagesFailed :: nat
  pageResults :: "PageExtractionResult list"
  metrics :: ExtractionMetrics

text \<open>
  \<^verbatim>\<open>extractSingle\<close>. The generation capability is external: \<open>generateObject k prompt\<close> is how
  its \<open>k\<close>-th call ends when given \<open>prompt\<close>, with the validated \<^verbatim>\<open>object.items\<close> or with what
  it threw.
\<close>

definition extractSingle ::
  "(nat \<Rightarrow> string \<Rightarrow> thrown + item list) \<Rightarrow> string \<Rightarrow> ExtractorConfig \<Rightarrow>
   item list operation" where
  "extractSingle generateObject text extractor w =
     (let prompt = buildPrompt extractor text
      in case invoke (\<lambda>k. generateObject k prompt) w of
           (Inr object_items, w') \<Rightarrow> (Inr object_items, w')
         | (Inl err, w') \<Rightarrow>
             (Inl (Thrown (wrapError err
                (Some (''Extraction failed for schema '' @ [CHR 0x22] @ name extractor @
                       [CHR 0x22])))), w'))"

text \<open>The key of \<^verbatim>\<open>deduplicateItems\<close>; \<open>JSON_stringify\<close> is the built-in serialisation.\<close>

definition dedup_key :: "(item \<Rightarrow> string) \<Rightarrow> item \<Rightarrow> string" where
  "dedup_key JSON_stringify item =
     (case map_of item ''description'' of
        Some (JStr d) \<Rightarrow> trim (toLowerCase d)
      | _ \<Rightarrow> JSON_stringify item)"

fun dedup_loop ::
  "(item \<Rightarrow> string) \<Rightarrow> item list \<Rightarrow> string set \<Rightarrow> item list \<Rightarrow> item list" where
  "dedup_loop JSON_stringify [] seen deduplicated = deduplicated"
| "dedup_loop JSON_stringify (item # rest) seen deduplicated =
     (let key = dedup_key JSON_stringify item
      in if key \<notin> seen
         then dedup_loop JSON_stringify rest (insert key seen) (deduplicated @ [item])
         else dedup_loop JSON_stringify rest seen deduplicated)"

definition deduplicateItems :: "(item \<Rightarrow> string) \<Rightarrow> item list \<Rightarrow> item list" where
  "deduplicateItems JSON_stringify its = dedup_loop JSON_stringify its {} []"

text \<open>
  The body of the \<^verbatim>\<open>try\<close>/\<^verbatim>\<open>catch\<close> in the chunk loop: the page result pushed for a chunk,
  given how \<^verbatim>\<open>rateLimiter.execute\<close> ended. The optional progress callback and the log calls
  of the loop only observe the run and are not modelled.
\<close>

definition page_result :: "PageChunk \<Rightarrow> thrown + item list \<Rightarrow> PageExtractionResult" where
  "page_result chunk outcome =
     (case outcome of
        Inr its \<Rightarrow>
          \<lparr>PageExtractionResult.items = its, pageNumber = PageChunk.pageNumber chunk,
           success = True,
           error = None, errorCode = None\<rparr>
      | Inl err \<Rightarrow>
          (let exError = wrapError err None
           in \<lparr>PageExtractionResult.items = [], pageNumber = PageChunk.pageNumber chunk,
               success = False,
               error = Some (message exError), errorCode = code exError\<rparr>))"

definition page_label :: "PageChunk \<Rightarrow> string" where
  "page_label chunk = ''Page '' @ String_of_int (PageChunk.pageNumber chunk) @ '' extraction''"

fun process_chunks ::
  "(nat \<Rightarrow> string \<Rightarrow> thrown + item list) \<Rightarrow> (nat \<Rightarrow> int) \<Rightarrow> ExtractorConfig \<Rightarrow>
   PageChunk list \<Rightarrow> RateLimiter \<Rightarrow> world \<Rightarrow> PageExtractionResult list \<Rightarrow> item list \<Rightarrow>
   RateLimiter \<times> world \<times> PageExtractionResult list \<times> item list" where
  "process_chunks generateObject clock extractor [] rl w results allItems =
     (rl, w, results, allItems)"
| "process_chunks generateObject clock extractor (chunk # rest) rl w results allItems =
     (case execute clock (extractSingle generateObject (content chunk) extractor)
             (page_label chunk) rl w of
        (outcome, rl', w') \<Rightarrow>
          process_chunks generateObject clock extractor rest rl' w'
            (results @ [page_result chunk outcome])
            (allItems @ PageExtractionResult.items (page_result chunk outcome)))"

text \<open>\<^verbatim>\<open>sum + (item.confidence || 0)\<close> on a numeric sum: falsy values count as 0,
  \<^verbatim>\<open>true\<close> is converted to 1, numbers are added; other truthy values turn the sum into a
  string (\<open>None\<close>).\<close>

fun confidence_addend :: "jsval option \<Rightarrow> real option" where
  "confidence_addend None = Some 0"
| "confidence_addend (Some JNull) = Some 0"
| "confidence_addend (Some (JBool b)) = Some (if b then 1 else 0)"
| "confidence_addend (Some (JNum x)) = Some x"
| "confidence_addend (Some (JStr s)) = (if s = [] then Some 0 else None)"
| "confidence_addend (Some (JArr xs)) = None"
| "confidence_addend (Some (JObj kvs)) = None"

fun totalConfidence :: "item list \<Rightarrow> real option \<Rightarrow> real option" where
  "totalConfidence [] acc = acc"
| "totalConfidence (item # rest) acc =
     totalConfidence rest
       (case (acc, confidence_addend (map_of item ''confidence'')) of
          (Some s, Some c) \<Rightarrow> Some (s + c)
        | _ \<Rightarrow> None)"

fun is_number :: "jsval option \<Rightarrow> bool" where
  "is_number (Some (JNum x)) = True"
| "is_number v = False"

definition average_confidence :: "item list \<Rightarrow> average" where
  "average_confidence allItems =
     (if length allItems > 0 \<and> is_number (map_of (hd allItems) ''confidence'')
      then (case totalConfidence allItems (Some 0) of
              Some tc \<Rightarrow> Number (tc / real (length allItems))
            | None \<Rightarrow> Coerced)
      else Undefined)"

definition extractFromPages ::
  "(nat \<Rightarrow> string \<Rightarrow> thrown + item list) \<Rightarrow> (nat \<Rightarrow> int) \<Rightarrow> (item \<Rightarrow> string) \<Rightarrow>
   PageChunk list \<Rightarrow> ExtractorConfig \<Rightarrow> world \<Rightarrow> ExtractionResult \<times> world" where
  "extractFromPages generateObject clock JSON_stringify chunks extractor w =
     (case Date_now clock w of (startTime, w0) \<Rightarrow>
      let rl_config = (case rateLimit extractor of Some c \<Rightarrow> c | None \<Rightarrow> DEFAULT_RATE_LIMIT);
          rateLimiter = new_RateLimiter
            \<lparr>delayMs_opt = Some (delayMs rl_config), maxRetries_opt = Some (maxRetries rl_config)\<rparr>
      in case process_chunks generateObject clock extractor chunks rateLimiter w0 [] [] of
           (rl, w1, pageResults', allItems) \<Rightarrow>
      let itemsBeforeDedup' = length allItems;
          allItems' = deduplicateItems JSON_stringify allItems
      in case Date_now clock w1 of (endTime, w2) \<Rightarrow>
      let processingTimeMs' = endTime - startTime;
          pagesFailed' = length (filter (\<lambda>r. \<not> success r) pageResults')
      in (\<lparr>items = allItems',
           pagesProcessed = length chunks,
           pagesFailed = pagesFailed',
           pageResults = pageResults',
           metrics = \<lparr>totalItems = length allItems',
                      itemsBeforeDedup = itemsBeforeDedup',
                      processingTimeMs = processingTimeMs',
                      averageConfidence = average_confidence allItems'\<rparr>\<rparr>,
          w2))"

section \<open>The chunker (extraction-pipeline.ts, chunkBySize)\<close>

text \<open>\<^verbatim>\<open>s.lastIndexOf(p, position)\<close>: the greatest index of an occurrence of \<open>p\<close> that
  starts at or before \<open>position\<close>, or -1.\<close>

fun lastIndexOf_from :: "string \<Rightarrow> string \<Rightarrow> nat \<Rightarrow> int" where
  "lastIndexOf_from s p 0 = (if prefix p s then 0 else - 1)"
| "lastIndexOf_from s p (Suc i) =
     (if prefix p (drop (Suc i) s) then int (Suc i) else lastIndexOf_from s p i)"

definition lastIndexOf :: "string \<Rightarrow> string \<Rightarrow> int \<Rightarrow> int" where
  "lastIndexOf s p position =
     (if length s < length p then - 1
      else lastIndexOf_from s p (nat (min (max position 0) (int (length s - length p)))))"

text \<open>\<^verbatim>\<open>s.slice(start, end)\<close>; a negative index counts from the end of the string.\<close>

definition slice_index :: "string \<Rightarrow> int \<Rightarrow> nat" where
  "slice_index s i = (if i < 0 then nat (int (length s) + i) else min (nat i) (length s))"

definition slice :: "string \<Rightarrow> int \<Rightarrow> int \<Rightarrow> string" where
  "slice s start end = take (slice_index s end - slice_index s start) (drop (slice_index s start) s)"

definition slice_from :: "string \<Rightarrow> int \<Rightarrow> string" where
  "slice_from s start = drop (slice_index s start) s"

text \<open>
  The \<^verbatim>\<open>while\<close> loop of \<^verbatim>\<open>chunkBySize\<close>. It need not terminate (a split index of 0 leaves
  \<^verbatim>\<open>remaining\<close> as it is), so the result is optional: \<open>None\<close> is a run that never returns.
\<close>

definition splitIndex_of :: "int \<Rightarrow> string \<Rightarrow> int" where
  "splitIndex_of maxChunkSize remaining =
     (if int (length remaining) > maxChunkSize then
        (let paragraphBreak = lastIndexOf remaining [CHR 0x0A, CHR 0x0A] maxChunkSize
         in if real_of_int paragraphBreak > real_of_int maxChunkSize * 0.5 then paragraphBreak
            else
              (let sentenceBreak = lastIndexOf remaining ''. '' maxChunkSize
               in if real_of_int sentenceBreak > real_of_int maxChunkSize * 0.5
                  then sentenceBreak + 1
                  else maxChunkSize))
      else int (length remaining))"

partial_function (option) chunk_loop ::
  "int \<Rightarrow> string \<Rightarrow> int \<Rightarrow> PageChunk list \<Rightarrow> PageChunk list option" where
  "chunk_loop maxChunkSize remaining pageNo chunks =
     (if length remaining > 0 then
        chunk_loop maxChunkSize
          (trim (slice_from remaining (splitIndex_of maxChunkSize remaining)))
          (pageNo + 1)
          (chunks @ [\<lparr>content = trim (slice remaining 0 (splitIndex_of maxChunkSize remaining)),
                      pageNumber = pageNo\<rparr>])
      else Some chunks)"

declare chunk_loop.simps [code]

definition chunkBySize :: "string \<Rightarrow> int \<Rightarrow> PageChunk list option" where
  "chunkBySize text maxChunkSize = chunk_loop maxChunkSize text 1 []"

section \<open>Vocabulary of the properties\<close>

subsection \<open>Observing the scheduler\<close>

text \<open>
  \<open>slept\<close> is the total time requested from \<^verbatim>\<open>sleep\<close> in a trace. \<open>backoff_schedule d a m\<close>
  is what attempts \<open>a\<close> to \<open>m\<close> of an always-throttled operation leave in the trace once the
  slot waits are removed: each attempt \<open>k < m\<close> is followed by a backoff sleep of
  \<open>2^k * d\<close>, and attempt \<open>m\<close> ends the list.
\<close>

fun is_SlotWait :: "event \<Rightarrow> bool" where
  "is_SlotWait (SlotWait ms) = True"
| "is_SlotWait e = False"

fun slept :: "event list \<Rightarrow> int" where
  "slept [] = 0"
| "slept (SlotWait ms # es) = ms + slept es"
| "slept (Backoff ms # es) = ms + slept es"
| "slept (Invoke # es) = slept es"

definition backoff_schedule :: "int \<Rightarrow> nat \<Rightarrow> nat \<Rightarrow> event list" where
  "backoff_schedule d a m = concat (map (\<lambda>k. [Invoke, Backoff (2 ^ k * d)]) [a..<m]) @ [Invoke]"

text \<open>An operation that, whenever invoked, records one invocation and nothing else.\<close>

definition invokes_once :: "'a operation \<Rightarrow> bool" where
  "invokes_once fn \<longleftrightarrow> (\<forall>w. trace (snd (fn w)) = trace w @ [Invoke])"

text \<open>
  \<open>first_attempt\<close> is how the first attempt of \<^verbatim>\<open>execute\<close> ends: the operation is invoked in the
  world that the opening \<^verbatim>\<open>waitForNextSlot\<close> leaves. An attempt is \<open>throttled\<close> when it throws an
  error that \<^verbatim>\<open>isRateLimitError\<close> accepts; \<^verbatim>\<open>execute\<close> retries such an attempt while attempts
  remain.
\<close>

fun throttled :: "thrown + 'a \<Rightarrow> bool" where
  "throttled (Inl e) = isRateLimitError (as_Error e)"
| "throttled (Inr v) = False"

definition first_attempt ::
  "(nat \<Rightarrow> int) \<Rightarrow> 'a operation \<Rightarrow> RateLimiter \<Rightarrow> world \<Rightarrow> thrown + 'a" where
  "first_attempt clock fn rl w =
     (case waitForNextSlot clock rl w of (waited, rl1, w1) \<Rightarrow> fst (fn w1))"

text \<open>
  The classification rule in the words of the specification: the message contains, ignoring
  case, one of the five strings.
\<close>

definition throttling_patterns :: "string list" where
  "throttling_patterns = [''429'', ''rate limit'', ''rate_limit'', ''quota'', ''too many requests'']"

definition ci_contains :: "string \<Rightarrow> string \<Rightarrow> bool" where
  "ci_contains s p = (\<exists>pre suf. toLowerCase s = pre @ toLowerCase p @ suf)"

text \<open>
  Sequences of calls on one limiter: \<open>run_calls\<close> runs them in order and returns how each
  \<^verbatim>\<open>execute\<close> ended. \<open>counters_le\<close> compares the four counters of two metrics records.
\<close>

fun succeeded :: "thrown + 'a \<Rightarrow> bool" where
  "succeeded (Inr v) = True"
| "succeeded (Inl e) = False"

datatype 'a scheduler_call = AwaitSlot | Execute "'a operation" string

fun run_calls ::
  "(nat \<Rightarrow> int) \<Rightarrow> 'a scheduler_call list \<Rightarrow> RateLimiter \<Rightarrow> world \<Rightarrow>
   (thrown + 'a) list \<times> RateLimiter \<times> world" where
  "run_calls clock [] rl w = ([], rl, w)"
| "run_calls clock (AwaitSlot # cs) rl w =
     (case waitForNextSlot clock rl w of (waited, rl1, w1) \<Rightarrow> run_calls clock cs rl1 w1)"
| "run_calls clock (Execute fn opName # cs) rl w =
     (case execute clock fn opName rl w of (res, rl1, w1) \<Rightarrow>
        (case run_calls clock cs rl1 w1 of (rs, rl2, w2) \<Rightarrow> (res # rs, rl2, w2)))"

definition counters_le :: "RateLimiterMetrics \<Rightarrow> RateLimiterMetrics \<Rightarrow> bool" where
  "counters_le m1 m2 \<longleftrightarrow>
     totalExecutions m1 \<le> totalExecutions m2 \<and>
     totalWaitTimeMs m1 \<le> totalWaitTimeMs m2 \<and>
     totalRetries m1 \<le> totalRetries m2 \<and>
     totalFailures m1 \<le> totalFailures m2"

subsection \<open>Observing the pipeline\<close>

text \<open>
  Deduplication in the words of the specification: an item is kept exactly when no item
  before it has the same key; kept items stay in their order.
\<close>

definition first_seen :: "('a \<Rightarrow> 'k) \<Rightarrow> 'a list \<Rightarrow> 'a list" where
  "first_seen key xs =
     map (\<lambda>i. xs ! i) (filter (\<lambda>i. key (xs ! i) \<notin> key ` set (take i xs)) [0..<length xs])"

text \<open>
  \<open>run_limiter\<close> is the limiter that \<^verbatim>\<open>extractFromPages\<close> constructs for a run.
  \<open>state_before \<dots> i\<close> is the limiter and the world in which chunk \<open>i\<close> of a run is processed,
  and \<open>chunk_outcome \<dots> i\<close> is how \<^verbatim>\<open>rateLimiter.execute\<close> ends on that chunk.
  \<open>extraction_context\<close> is the context string that \<^verbatim>\<open>extractSingle\<close> passes to \<^verbatim>\<open>wrapError\<close>.
\<close>

definition run_limiter :: "ExtractorConfig \<Rightarrow> RateLimiter" where
  "run_limiter extractor =
     (let rl_config = (case rateLimit extractor of Some c \<Rightarrow> c | None \<Rightarrow> DEFAULT_RATE_LIMIT)
      in new_RateLimiter
           \<lparr>delayMs_opt = Some (delayMs rl_config), maxRetries_opt = Some (maxRetries rl_config)\<rparr>)"

definition state_before ::
  "(nat \<Rightarrow> string \<Rightarrow> thrown + item list) \<Rightarrow> (nat \<Rightarrow> int) \<Rightarrow> ExtractorConfig \<Rightarrow>
   PageChunk list \<Rightarrow> world \<Rightarrow> nat \<Rightarrow> RateLimiter \<times> world" where
  "state_before generateObject clock extractor chunks w i =
     (case process_chunks generateObject clock extractor (take i chunks) (run_limiter extractor)
             (snd (Date_now clock w)) [] [] of
        (rl, w1, results, allItems) \<Rightarrow> (rl, w1))"



text \<open>
  What an item contributes to the confidence sum when its \<^verbatim>\<open>confidence\<close> is a number or
  absent.
\<close>

definition confidence_or_0 :: "item \<Rightarrow> real" where
  "confidence_or_0 item = (case map_of item ''confidence'' of Some (JNum x) \<Rightarrow> x | _ \<Rightarrow> 0)"

definition numeric_or_absent :: "item \<Rightarrow> bool" where
  "numeric_or_absent item =
     (case map_of item ''confidence'' of None \<Rightarrow> True | Some (JNum x) \<Rightarrow> True | _ \<Rightarrow> False)"

subsection \<open>Concrete environments\<close>

text \<open>
  Inputs for the concrete runs below. \<open>clock_from t0 step\<close> is a clock that reads \<open>t0\<close> first
  and advances by \<open>step\<close> milliseconds from one reading to the next. \<open>failing e\<close> and
  \<open>returning v\<close> are outcome sequences of operations that always throw \<open>e\<close>, or always return
  \<open>v\<close>; \<open>throttled_then n v\<close> throws \<^verbatim>\<open>429 Too Many Requests\<close> on its first \<open>n\<close> invocations and
  returns \<open>v\<close> afterwards, as the mocked function of the repository's retry test does. \<open>scripted responses\<close> is a generation capability that answers its \<open>k\<close>-th call with the
  \<open>k\<close>-th response of a list, as the mocked client of the repository's integration tests
  does. \<open>test_extractor\<close> is the extractor of those tests. The serialisation
  \<^verbatim>\<open>JSON.stringify\<close> is a parameter of the model; every item of the concrete runs has a textual
  description, so the serialisation is never consulted there, and \<open>no_stringify\<close> fills the
  parameter.
\<close>

definition clock_from :: "int \<Rightarrow> int \<Rightarrow> nat \<Rightarrow> int" where
  "clock_from t0 step n = t0 + step * int n"

definition world0 :: world where
  "world0 = \<lparr>reads = 0, calls = 0, trace = []\<rparr>"

definition failing :: "js_error \<Rightarrow> nat \<Rightarrow> thrown + 'a" where
  "failing e k = Inl (Thrown e)"

definition returning :: "'a \<Rightarrow> nat \<Rightarrow> thrown + 'a" where
  "returning v k = Inr v"

definition throttled_then :: "nat \<Rightarrow> 'a \<Rightarrow> nat \<Rightarrow> thrown + 'a" where
  "throttled_then n v k =
     (if k < n then Inl (Thrown (Error ''429 Too Many Requests'')) else Inr v)"

definition three_calls :: "string scheduler_call list" where
  "three_calls = [Execute (invoke (returning ''a'')) ''first'', AwaitSlot,
                  Execute (invoke (returning ''b'')) ''second'',
                  Execute (invoke (returning ''c'')) ''third'']"

definition scripted :: "(thrown + item list) list \<Rightarrow> nat \<Rightarrow> string \<Rightarrow> thrown + item list" where
  "scripted responses k prompt =
     (if k < length responses then responses ! k
      else Inl (Thrown (Error ''no scripted response'')))"

definition test_extractor :: ExtractorConfig where
  "test_extractor =
     \<lparr>name = ''test-extractor'', description = ''A test extractor for integration tests'',
      buildPrompt = (\<lambda>text. ''Extract from: '' @ text),
      rateLimit = Some \<lparr>delayMs = 10, maxRetries = 2\<rparr>\<rparr>"

definition no_stringify :: "item \<Rightarrow> string" where
  "no_stringify item = []"

definition one_page :: "PageChunk list" where
  "one_page = [\<lparr>content = ''Page 1'', pageNumber = 1\<rparr>]"

definition two_pages :: "PageChunk list" where
  "two_pages = [\<lparr>content = ''Page 1'', pageNumber = 1\<rparr>, \<lparr>content = ''Page 2'', pageNumber = 2\<rparr>]"

definition three_pages :: "PageChunk list" where
  "three_pages = [\<lparr>content = ''Success 1'', pageNumber = 1\<rparr>,
                  \<lparr>content = ''Fail 2'', pageNumber = 2\<rparr>,
                  \<lparr>content = ''Success 3'', pageNumber = 3\<rparr>]"

definition confident_items :: "item list" where
  "confident_items = [[(''description'', JStr ''a''), (''confidence'', JNum 0.8)],
                      [(''description'', JStr ''b''), (''confidence'', JNum 0.6)]]"

definition original_item :: item where
  "original_item = [(''name'', JStr ''Original''), (''value'', JNum 10),
                    (''description'', JStr ''Shared ID'')]"

definition duplicate_item :: item where
  "duplicate_item = [(''name'', JStr ''Duplicate''), (''value'', JNum 20),
                     (''description'', JStr ''  shared id '')]"


definition distinct_responses :: "(thrown + item list) list" where
  "distinct_responses =
     [Inr [[(''description'', JStr ''Page 1 Item'')]],
      Inl (Thrown (Error ''Simulated LLM Failure'')),
      Inr [[(''description'', JStr ''Page 3 Item'')]]]"

section \<open>Properties of the call scheduler\<close>

lemma slept_append [simp]: "slept (xs @ ys) = slept xs + slept ys"
  by (induction xs rule: slept.induct) auto

text \<open>
  Claim C8. \<^verbatim>\<open>waitForNextSlot\<close> computes \<open>remaining = delayMs - (now - lastCallTime)\<close> from the
  first clock reading. When \<open>remaining\<close> is positive it sleeps exactly \<open>remaining\<close>
  milliseconds, adds \<open>remaining\<close> to \<open>totalWaitTimeMs\<close> and returns it; otherwise it does not
  sleep, leaves \<open>totalWaitTimeMs\<close> alone and returns 0. In both cases \<open>lastCallTime\<close> becomes
  the clock reading taken after the wait, nothing else of the limiter changes, and the call
  returns a value (the model has no failing branch, as the source has no \<^verbatim>\<open>throw\<close>).
\<close>

theorem waitForNextSlot_spec:
  "waitForNextSlot clock rl w =
     (if delayMs (config rl) - (clock (reads w) - lastCallTime rl) > 0
      then (delayMs (config rl) - (clock (reads w) - lastCallTime rl),
            rl\<lparr>lastCallTime := clock (Suc (reads w)),
               RateLimiter.metrics := (RateLimiter.metrics rl)\<lparr>totalWaitTimeMs :=
                 totalWaitTimeMs (RateLimiter.metrics rl) +
                 (delayMs (config rl) - (clock (reads w) - lastCallTime rl))\<rparr>\<rparr>,
            w\<lparr>reads := Suc (Suc (reads w)),
              trace := trace w @
                [SlotWait (delayMs (config rl) - (clock (reads w) - lastCallTime rl))]\<rparr>)
      else (0, rl\<lparr>lastCallTime := clock (Suc (reads w))\<rparr>, w\<lparr>reads := Suc (Suc (reads w))\<rparr>))"
  by (simp add: waitForNextSlot_def Date_now_def sleep_def Let_def)

theorem waitForNextSlot_spec_witness:
  "waitForNextSlot (clock_from 1000 5)
     \<lparr>lastCallTime = 990, config = \<lparr>delayMs = 100, maxRetries = 3\<rparr>,
      RateLimiter.metrics = zero_metrics\<rparr> world0 =
   (90,
    \<lparr>lastCallTime = 1005, config = \<lparr>delayMs = 100, maxRetries = 3\<rparr>,
     RateLimiter.metrics = zero_metrics\<lparr>totalWaitTimeMs := 90\<rparr>\<rparr>,
    \<lparr>reads = 2, calls = 0, trace = [SlotWait 90]\<rparr>) \<and>
   waitForNextSlot (clock_from 1000 5)
     \<lparr>lastCallTime = 100, config = \<lparr>delayMs = 100, maxRetries = 3\<rparr>,
      RateLimiter.metrics = zero_metrics\<rparr> world0 =
   (0,
    \<lparr>lastCallTime = 1005, config = \<lparr>delayMs = 100, maxRetries = 3\<rparr>,
     RateLimiter.metrics = zero_metrics\<rparr>,
    \<lparr>reads = 2, calls = 0, trace = []\<rparr>)"
  by (simp add: waitForNextSlot_spec clock_from_def world0_def zero_metrics_def)

lemma waitForNextSlot_effect:
  assumes "waitForNextSlot clock rl w = (waited, rl1, w1)"
  shows "config rl1 = config rl"
    and "calls w1 = calls w"
    and "reads w1 = Suc (Suc (reads w))"
    and "totalExecutions (RateLimiter.metrics rl1) = totalExecutions (RateLimiter.metrics rl)"
    and "totalRetries (RateLimiter.metrics rl1) = totalRetries (RateLimiter.metrics rl)"
    and "totalFailures (RateLimiter.metrics rl1) = totalFailures (RateLimiter.metrics rl)"
    and "\<exists>sw. trace w1 = trace w @ sw \<and> filter (\<lambda>e. \<not> is_SlotWait e) sw = [] \<and> 0 \<le> slept sw \<and>
           totalWaitTimeMs (RateLimiter.metrics rl1) = totalWaitTimeMs (RateLimiter.metrics rl) + slept sw"
  using assms
  by (auto simp add: waitForNextSlot_def Date_now_def sleep_def Let_def split: if_splits)

lemma execute_loop_skip:
  assumes "\<not> attempt \<le> maxRetries (config rl)"
  shows "execute_loop clock fn operationName attempt lastError rl w =
     (Inl (Thrown (case lastError of
                     Some e \<Rightarrow> e
                   | None \<Rightarrow> Error (operationName @ '' failed after '' @
                               String_of_int (maxRetries (config rl)) @ '' attempts''))),
      rl, w)"
  using assms by (subst execute_loop.simps) simp

lemma execute_loop_success:
  assumes "attempt \<le> maxRetries (config rl)"
    and "waitForNextSlot clock rl w = (waited, rl1, w1)"
    and "fn w1 = (Inr result, w2)"
  shows "execute_loop clock fn operationName attempt lastError rl w =
     (Inr result,
      rl1\<lparr>RateLimiter.metrics := (RateLimiter.metrics rl1)\<lparr>
        totalExecutions := totalExecutions (RateLimiter.metrics rl1) + 1,
        lastExecutionAt := Some (clock (reads w2))\<rparr>\<rparr>,
      w2\<lparr>reads := Suc (reads w2)\<rparr>)"
  using assms by (subst execute_loop.simps) (simp add: Date_now_def)

lemma execute_loop_retry:
  assumes "attempt < maxRetries (config rl)"
    and "waitForNextSlot clock rl w = (waited, rl1, w1)"
    and "fn w1 = (Inl err, w2)"
    and "isRateLimitError (as_Error err)"
  shows "execute_loop clock fn operationName attempt lastError rl w =
     execute_loop clock fn operationName (attempt + 1) (Some (as_Error err))
       (rl1\<lparr>RateLimiter.metrics := (RateLimiter.metrics rl1)\<lparr>
          totalRetries := totalRetries (RateLimiter.metrics rl1) + 1,
          totalWaitTimeMs := totalWaitTimeMs (RateLimiter.metrics rl1) +
            2 ^ nat attempt * delayMs (config rl)\<rparr>\<rparr>)
       (sleep Backoff (2 ^ nat attempt * delayMs (config rl)) w2)"
proof -
  have c: "config rl1 = config rl"
    using assms(2) by (rule waitForNextSlot_effect)
  show ?thesis
    using assms c by (subst execute_loop.simps) simp
qed

lemma execute_loop_exhausted:
  assumes "attempt = maxRetries (config rl)"
    and "waitForNextSlot clock rl w = (waited, rl1, w1)"
    and "fn w1 = (Inl err, w2)"
    and "isRateLimitError (as_Error err)"
  shows "execute_loop clock fn operationName attempt lastError rl w =
     (Inl (Thrown (RateLimitError (rate_limit_message operationName attempt)
                     (delayMs (config rl) * 2 ^ nat attempt) attempt)),
      rl1\<lparr>RateLimiter.metrics := (RateLimiter.metrics rl1)\<lparr>totalFailures := totalFailures (RateLimiter.metrics rl1) + 1\<rparr>\<rparr>,
      w2)"
proof -
  have c: "config rl1 = config rl"
    using assms(2) by (rule waitForNextSlot_effect)
  show ?thesis
    using assms c by (subst execute_loop.simps) simp
qed

lemma execute_loop_non_throttling:
  assumes "attempt \<le> maxRetries (config rl)"
    and "waitForNextSlot clock rl w = (waited, rl1, w1)"
    and "fn w1 = (Inl err, w2)"
    and "\<not> isRateLimitError (as_Error err)"
  shows "execute_loop clock fn operationName attempt lastError rl w =
     (Inl (Thrown (wrapError (Thrown (as_Error err)) (Some operationName))),
      rl1\<lparr>RateLimiter.metrics := (RateLimiter.metrics rl1)\<lparr>totalFailures := totalFailures (RateLimiter.metrics rl1) + 1\<rparr>\<rparr>,
      w2)"
  using assms by (subst execute_loop.simps) simp

lemma backoff_schedule_last [simp]: "backoff_schedule d m m = [Invoke]"
  by (simp add: backoff_schedule_def)

lemma backoff_schedule_step:
  "a < m \<Longrightarrow> backoff_schedule d a m = Invoke # Backoff (2 ^ a * d) # backoff_schedule d (Suc a) m"
  by (simp add: backoff_schedule_def upt_conv_Cons)

lemma throttled_loop:
  fixes outcomes :: "nat \<Rightarrow> thrown + 'a"
  assumes thr: "\<And>k. \<exists>e. outcomes k = Inl e \<and> isRateLimitError (as_Error e)"
  shows "1 \<le> a \<Longrightarrow> a \<le> maxRetries (config rl) \<Longrightarrow> n = nat (maxRetries (config rl) - a) \<Longrightarrow>
     \<exists>rl' w' new.
       execute_loop clock (invoke outcomes) opName a le rl w =
         (Inl (Thrown (RateLimitError (rate_limit_message opName (maxRetries (config rl)))
                 (delayMs (config rl) * 2 ^ nat (maxRetries (config rl)))
                 (maxRetries (config rl)))), rl', w') \<and>
       config rl' = config rl \<and>
       calls w' = calls w + nat (maxRetries (config rl) - a + 1) \<and>
       trace w' = trace w @ new \<and>
       filter (\<lambda>e. \<not> is_SlotWait e) new =
         backoff_schedule (delayMs (config rl)) (nat a) (nat (maxRetries (config rl))) \<and>
       totalWaitTimeMs (RateLimiter.metrics rl') = totalWaitTimeMs (RateLimiter.metrics rl) + slept new \<and>
       totalRetries (RateLimiter.metrics rl') = totalRetries (RateLimiter.metrics rl) + (maxRetries (config rl) - a) \<and>
       totalFailures (RateLimiter.metrics rl') = totalFailures (RateLimiter.metrics rl) + 1 \<and>
       totalExecutions (RateLimiter.metrics rl') = totalExecutions (RateLimiter.metrics rl)"
proof (induction n arbitrary: a le rl w)
  case 0
  obtain waited rl1 w1 where wf: "waitForNextSlot clock rl w = (waited, rl1, w1)"
    by (metis prod_cases3)
  note eff = waitForNextSlot_effect [OF wf]
  obtain sw where sw: "trace w1 = trace w @ sw" "filter (\<lambda>e. \<not> is_SlotWait e) sw = []"
    "totalWaitTimeMs (RateLimiter.metrics rl1) = totalWaitTimeMs (RateLimiter.metrics rl) + slept sw"
    using eff(7) by blast
  obtain e where e: "outcomes (calls w1) = Inl e" "isRateLimitError (as_Error e)"
    using thr by blast
  let ?w2 = "w1\<lparr>calls := Suc (calls w1), trace := trace w1 @ [Invoke]\<rparr>"
  have fn: "invoke outcomes w1 = (Inl e, ?w2)"
    by (simp add: invoke_def e(1))
  from 0 have am: "a = maxRetries (config rl)"
    by simp
  have "execute_loop clock (invoke outcomes) opName a le rl w =
     (Inl (Thrown (RateLimitError (rate_limit_message opName a)
                     (delayMs (config rl) * 2 ^ nat a) a)),
      rl1\<lparr>RateLimiter.metrics := (RateLimiter.metrics rl1)\<lparr>totalFailures := totalFailures (RateLimiter.metrics rl1) + 1\<rparr>\<rparr>,
      ?w2)"
    by (rule execute_loop_exhausted [where fn = "invoke outcomes", OF am wf fn e(2)])
  moreover have "nat (maxRetries (config rl) - a + 1) = 1" "nat a = nat (maxRetries (config rl))"
    using am by simp_all
  ultimately show ?case
    apply (intro exI [of _ "rl1\<lparr>RateLimiter.metrics := (RateLimiter.metrics rl1)\<lparr>totalFailures := totalFailures (RateLimiter.metrics rl1) + 1\<rparr>\<rparr>"]
        exI [of _ ?w2] exI [of _ "sw @ [Invoke]"])
    using eff(1-6) sw am by simp
next
  case (Suc n)
  obtain waited rl1 w1 where wf: "waitForNextSlot clock rl w = (waited, rl1, w1)"
    by (metis prod_cases3)
  note eff = waitForNextSlot_effect [OF wf]
  obtain sw where sw: "trace w1 = trace w @ sw" "filter (\<lambda>e. \<not> is_SlotWait e) sw = []"
    "totalWaitTimeMs (RateLimiter.metrics rl1) = totalWaitTimeMs (RateLimiter.metrics rl) + slept sw"
    using eff(7) by blast
  obtain e where e: "outcomes (calls w1) = Inl e" "isRateLimitError (as_Error e)"
    using thr by blast
  let ?w2 = "w1\<lparr>calls := Suc (calls w1), trace := trace w1 @ [Invoke]\<rparr>"
  let ?b = "2 ^ nat a * delayMs (config rl)"
  let ?rl2 = "rl1\<lparr>RateLimiter.metrics := (RateLimiter.metrics rl1)\<lparr>
          totalRetries := totalRetries (RateLimiter.metrics rl1) + 1,
          totalWaitTimeMs := totalWaitTimeMs (RateLimiter.metrics rl1) + ?b\<rparr>\<rparr>"
  let ?w3 = "sleep Backoff ?b ?w2"
  have fn: "invoke outcomes w1 = (Inl e, ?w2)"
    by (simp add: invoke_def e(1))
  from Suc.prems have lt: "a < maxRetries (config rl)"
    by simp
  have step: "execute_loop clock (invoke outcomes) opName a le rl w =
     execute_loop clock (invoke outcomes) opName (a + 1) (Some (as_Error e)) ?rl2 ?w3"
    by (rule execute_loop_retry [where fn = "invoke outcomes", OF lt wf fn e(2)])
  have c2: "config ?rl2 = config rl"
    using eff(1) by simp
  have p: "1 \<le> a + 1" "a + 1 \<le> maxRetries (config ?rl2)"
    "n = nat (maxRetries (config ?rl2) - (a + 1))"
    using Suc.prems lt eff(1) by simp_all
  note ih = Suc.IH [OF p, of "Some (as_Error e)" ?w3, unfolded c2]
  from ih obtain rl' w' new where r:
    "execute_loop clock (invoke outcomes) opName (a + 1) (Some (as_Error e)) ?rl2 ?w3 =
         (Inl (Thrown (RateLimitError (rate_limit_message opName (maxRetries (config rl)))
                 (delayMs (config rl) * 2 ^ nat (maxRetries (config rl)))
                 (maxRetries (config rl)))), rl', w')"
    "config rl' = config rl"
    "calls w' = calls ?w3 + nat (maxRetries (config rl) - (a + 1) + 1)"
    "trace w' = trace ?w3 @ new"
    "filter (\<lambda>e. \<not> is_SlotWait e) new =
         backoff_schedule (delayMs (config rl)) (nat (a + 1)) (nat (maxRetries (config rl)))"
    "totalWaitTimeMs (RateLimiter.metrics rl') = totalWaitTimeMs (RateLimiter.metrics ?rl2) + slept new"
    "totalRetries (RateLimiter.metrics rl') = totalRetries (RateLimiter.metrics ?rl2) + (maxRetries (config rl) - (a + 1))"
    "totalFailures (RateLimiter.metrics rl') = totalFailures (RateLimiter.metrics ?rl2) + 1"
    "totalExecutions (RateLimiter.metrics rl') = totalExecutions (RateLimiter.metrics ?rl2)"
    by blast
  have sched: "backoff_schedule (delayMs (config rl)) (nat a) (nat (maxRetries (config rl))) =
      Invoke # Backoff ?b # backoff_schedule (delayMs (config rl)) (nat (a + 1)) (nat (maxRetries (config rl)))"
    using Suc.prems lt by (simp add: backoff_schedule_step nat_add_distrib)
  have tr: "trace w' = trace w @ (sw @ [Invoke, Backoff ?b] @ new)"
    using r(4) sw(1) by (simp add: sleep_def)
  have "execute_loop clock (invoke outcomes) opName a le rl w =
         (Inl (Thrown (RateLimitError (rate_limit_message opName (maxRetries (config rl)))
                 (delayMs (config rl) * 2 ^ nat (maxRetries (config rl)))
                 (maxRetries (config rl)))), rl', w')"
    using step r(1) by simp
  moreover have "calls w' = calls w + nat (maxRetries (config rl) - a + 1)"
    using r(3) eff(2) lt Suc.prems by (simp add: sleep_def nat_add_distrib)
  moreover have "filter (\<lambda>e. \<not> is_SlotWait e) (sw @ [Invoke, Backoff ?b] @ new) =
         backoff_schedule (delayMs (config rl)) (nat a) (nat (maxRetries (config rl)))"
    using sw(2) r(5) sched by simp
  moreover have "totalWaitTimeMs (RateLimiter.metrics rl') =
      totalWaitTimeMs (RateLimiter.metrics rl) + slept (sw @ [Invoke, Backoff ?b] @ new)"
    using r(6) sw(3) by simp
  moreover have "totalRetries (RateLimiter.metrics rl') = totalRetries (RateLimiter.metrics rl) + (maxRetries (config rl) - a)"
    using r(7) eff(5) by simp
  moreover have "totalFailures (RateLimiter.metrics rl') = totalFailures (RateLimiter.metrics rl) + 1"
    using r(8) eff(6) by simp
  moreover have "totalExecutions (RateLimiter.metrics rl') = totalExecutions (RateLimiter.metrics rl)"
    using r(9) eff(4) by simp
  ultimately show ?case
    using r(2) tr by blast
qed

text \<open>
  Claim C3. Let the configuration have \<open>maxRetries = m \<ge> 1\<close> (the specification's
  schedule configuration has a positive retry count) and let the operation fail with a
  throttling-classified error at every invocation. Then \<^verbatim>\<open>execute\<close> invokes the operation
  exactly \<open>m\<close> times; apart from slot waits, what it does is: attempt 1, backoff sleep of
  \<open>2^1 * delayMs\<close>, attempt 2, backoff sleep of \<open>2^2 * delayMs\<close>, and so on up to attempt \<open>m\<close>,
  which no sleep follows; every sleep is added to \<open>totalWaitTimeMs\<close>; \<open>totalRetries\<close> grows by
  \<open>m - 1\<close> and \<open>totalFailures\<close> by 1; and it throws a \<^verbatim>\<open>RateLimitError\<close> with
  \<open>attemptsMade = m\<close> and \<open>retryAfterMs = delayMs * 2^m\<close>.
\<close>

theorem execute_throttled_exhausts:
  fixes outcomes :: "nat \<Rightarrow> thrown + 'a"
  assumes "1 \<le> maxRetries (config rl)"
    and "\<forall>k. \<exists>e. outcomes k = Inl e \<and> isRateLimitError (as_Error e)"
  shows "\<exists>rl' w' new.
       execute clock (invoke outcomes) opName rl w =
         (Inl (Thrown (RateLimitError (rate_limit_message opName (maxRetries (config rl)))
                 (delayMs (config rl) * 2 ^ nat (maxRetries (config rl)))
                 (maxRetries (config rl)))), rl', w') \<and>
       calls w' = calls w + nat (maxRetries (config rl)) \<and>
       trace w' = trace w @ new \<and>
       filter (\<lambda>e. \<not> is_SlotWait e) new =
         backoff_schedule (delayMs (config rl)) 1 (nat (maxRetries (config rl))) \<and>
       totalWaitTimeMs (RateLimiter.metrics rl') = totalWaitTimeMs (RateLimiter.metrics rl) + slept new \<and>
       totalRetries (RateLimiter.metrics rl') = totalRetries (RateLimiter.metrics rl) + (maxRetries (config rl) - 1) \<and>
       totalFailures (RateLimiter.metrics rl') = totalFailures (RateLimiter.metrics rl) + 1 \<and>
       totalExecutions (RateLimiter.metrics rl') = totalExecutions (RateLimiter.metrics rl)"
proof -
  have thr: "\<And>k. \<exists>e. outcomes k = Inl e \<and> isRateLimitError (as_Error e)"
    using assms(2) by blast
  have one: "(1::int) \<le> 1"
    by simp
  from throttled_loop [where outcomes = outcomes and a = 1 and rl = rl and clock = clock and opName = opName
      and le = None and w = w, OF thr one assms(1) refl]
  show ?thesis
    unfolding execute_def by auto
qed

lemma isRateLimitError_429: "isRateLimitError (Error ''429 rate limit'')"
  by (simp add: isRateLimitError_def toLowerCase_def toLowerCaseChar_def)

lemma not_isRateLimitError_db: "\<not> isRateLimitError (Error ''Database connection failed'')"
  by (simp add: isRateLimitError_def toLowerCase_def toLowerCaseChar_def)

theorem execute_throttled_exhausts_witness:
  "fst (execute (clock_from 1000 5) (invoke (failing (Error ''429 rate limit'') :: nat \<Rightarrow> thrown + unit)) ''op''
      (new_RateLimiter \<lparr>delayMs_opt = Some 10, maxRetries_opt = Some 2\<rparr>) world0) =
   Inl (Thrown (RateLimitError (rate_limit_message ''op'' 2) 40 2))"
  using execute_throttled_exhausts [where rl = "new_RateLimiter \<lparr>delayMs_opt = Some 10, maxRetries_opt = Some 2\<rparr>"
      and outcomes = "failing (Error ''429 rate limit'') :: nat \<Rightarrow> thrown + unit"
      and clock = "clock_from 1000 5" and opName = "''op''" and w = world0]
    isRateLimitError_429
  by (auto simp add: new_RateLimiter_def failing_def)

lemma js_includes_iff: "js_includes s p \<longleftrightarrow> (\<exists>pre suf. s = pre @ p @ suf)"
proof (induction s)
  case Nil
  then show ?case by auto
next
  case (Cons c cs)
  have "(\<exists>pre suf. c # cs = pre @ p @ suf) \<longleftrightarrow>
        prefix p (c # cs) \<or> (\<exists>pre suf. cs = pre @ p @ suf)"
  proof
    assume "\<exists>pre suf. c # cs = pre @ p @ suf"
    then obtain pre suf where eq: "c # cs = pre @ p @ suf"
      by blast
    show "prefix p (c # cs) \<or> (\<exists>pre suf. cs = pre @ p @ suf)"
    proof (cases pre)
      case Nil
      with eq show ?thesis by (auto simp: prefix_def)
    next
      case (Cons x xs)
      with eq have "cs = xs @ p @ suf" by simp
      then show ?thesis by blast
    qed
  next
    assume "prefix p (c # cs) \<or> (\<exists>pre suf. cs = pre @ p @ suf)"
    then show "\<exists>pre suf. c # cs = pre @ p @ suf"
    proof
      assume "prefix p (c # cs)"
      then obtain suf where "c # cs = p @ suf"
        by (auto simp: prefix_def)
      then have "c # cs = [] @ p @ suf" by simp
      then show ?thesis by blast
    next
      assume "\<exists>pre suf. cs = pre @ p @ suf"
      then obtain pre suf where "cs = pre @ p @ suf" by blast
      then have "c # cs = (c # pre) @ p @ suf" by simp
      then show ?thesis by blast
    qed
  qed
  with Cons show ?case by simp
qed

lemma toLowerCase_patterns:
  "toLowerCase ''429'' = ''429''"
  "toLowerCase ''rate limit'' = ''rate limit''"
  "toLowerCase ''rate_limit'' = ''rate_limit''"
  "toLowerCase ''quota'' = ''quota''"
  "toLowerCase ''too many requests'' = ''too many requests''"
  by (simp_all add: toLowerCase_def toLowerCaseChar_def)

lemma isRateLimitError_iff:
  "isRateLimitError e \<longleftrightarrow> (\<exists>p \<in> set throttling_patterns. ci_contains (message e) p)"
  by (simp add: isRateLimitError_def throttling_patterns_def ci_contains_def Let_def
      js_includes_iff toLowerCase_patterns)

lemma execute_loop_counters:
  "n = nat (maxRetries (config rl) + 1 - attempt) \<Longrightarrow>
   execute_loop clock fn opName attempt le rl w = (res, rl', w') \<Longrightarrow>
     config rl' = config rl \<and>
     totalExecutions (RateLimiter.metrics rl') =
       totalExecutions (RateLimiter.metrics rl) + (if succeeded res then 1 else 0) \<and>
     totalRetries (RateLimiter.metrics rl) \<le> totalRetries (RateLimiter.metrics rl') \<and>
     totalFailures (RateLimiter.metrics rl) \<le> totalFailures (RateLimiter.metrics rl') \<and>
     (succeeded res \<longrightarrow>
        totalFailures (RateLimiter.metrics rl') = totalFailures (RateLimiter.metrics rl)) \<and>
     (0 \<le> delayMs (config rl) \<longrightarrow>
        totalWaitTimeMs (RateLimiter.metrics rl) \<le> totalWaitTimeMs (RateLimiter.metrics rl'))"
proof (induction n arbitrary: attempt le rl w)
  case 0
  then have "\<not> attempt \<le> maxRetries (config rl)"
    by simp
  from execute_loop_skip [OF this, of clock fn opName le w] "0.prems"(2)
  show ?case by auto
next
  case (Suc n)
  then have le: "attempt \<le> maxRetries (config rl)"
    by simp
  obtain waited rl1 w1 where wf: "waitForNextSlot clock rl w = (waited, rl1, w1)"
    by (metis prod_cases3)
  note eff = waitForNextSlot_effect [OF wf]
  obtain sw where sw: "0 \<le> slept sw"
    "totalWaitTimeMs (RateLimiter.metrics rl1) = totalWaitTimeMs (RateLimiter.metrics rl) + slept sw"
    using eff(7) by blast
  obtain r w2 where fn: "fn w1 = (r, w2)"
    by (metis prod.exhaust)
  show ?case
  proof (cases r)
    case (Inr v)
    from execute_loop_success [where fn = fn, OF le wf fn [unfolded Inr], of opName le] Suc.prems(2)
    show ?thesis
      using eff(1,4,5,6) sw by auto
  next
    case (Inl err)
    note fn' = fn [unfolded Inl]
    show ?thesis
    proof (cases "isRateLimitError (as_Error err)")
      case False
      from execute_loop_non_throttling [where fn = fn, OF le wf fn' False, of opName le] Suc.prems(2)
      show ?thesis
        using eff(1,4,5,6) sw by auto
    next
      case True
      show ?thesis
      proof (cases "attempt < maxRetries (config rl)")
        case False
        with le have am: "attempt = maxRetries (config rl)"
          by simp
        from execute_loop_exhausted [where fn = fn, OF am wf fn' True, of opName le] Suc.prems(2)
        show ?thesis
          using eff(1,4,5,6) sw by auto
      next
        case lt: True
        let ?b = "2 ^ nat attempt * delayMs (config rl)"
        let ?rl2 = "rl1\<lparr>RateLimiter.metrics := (RateLimiter.metrics rl1)\<lparr>
          totalRetries := totalRetries (RateLimiter.metrics rl1) + 1,
          totalWaitTimeMs := totalWaitTimeMs (RateLimiter.metrics rl1) + ?b\<rparr>\<rparr>"
        let ?w3 = "sleep Backoff ?b w2"
        have step: "execute_loop clock fn opName attempt le rl w =
            execute_loop clock fn opName (attempt + 1) (Some (as_Error err)) ?rl2 ?w3"
          by (rule execute_loop_retry [where fn = fn, OF lt wf fn' True])
        have c2: "config ?rl2 = config rl"
          using eff(1) by simp
        have n: "n = nat (maxRetries (config ?rl2) + 1 - (attempt + 1))"
          using Suc.prems(1) c2 by simp
        have r: "execute_loop clock fn opName (attempt + 1) (Some (as_Error err)) ?rl2 ?w3 =
            (res, rl', w')"
          using step Suc.prems(2) by simp
        note ih = Suc.IH [OF n r, unfolded c2]
        have wait: "totalWaitTimeMs (RateLimiter.metrics rl) \<le>
            totalWaitTimeMs (RateLimiter.metrics rl')" if d: "0 \<le> delayMs (config rl)"
        proof -
          from d have "0 \<le> ?b"
            by simp
          moreover from ih d have "totalWaitTimeMs (RateLimiter.metrics ?rl2) \<le>
              totalWaitTimeMs (RateLimiter.metrics rl')"
            by blast
          ultimately show ?thesis
            using sw by simp
        qed
        from ih have "config rl' = config rl"
          and "totalExecutions (RateLimiter.metrics rl') =
            totalExecutions (RateLimiter.metrics ?rl2) + (if succeeded res then 1 else 0)"
          and "totalRetries (RateLimiter.metrics ?rl2) \<le> totalRetries (RateLimiter.metrics rl')"
          and "totalFailures (RateLimiter.metrics ?rl2) \<le> totalFailures (RateLimiter.metrics rl')"
          and "succeeded res \<longrightarrow>
            totalFailures (RateLimiter.metrics rl') = totalFailures (RateLimiter.metrics ?rl2)"
          by blast+
        then show ?thesis
          using eff(4,5,6) wait by simp
      qed
    qed
  qed
qed

lemma execute_counters:
  assumes "execute clock fn opName rl w = (res, rl', w')"
  shows "config rl' = config rl"
    and "totalExecutions (RateLimiter.metrics rl') =
       totalExecutions (RateLimiter.metrics rl) + (if succeeded res then 1 else 0)"
    and "totalRetries (RateLimiter.metrics rl) \<le> totalRetries (RateLimiter.metrics rl')"
    and "totalFailures (RateLimiter.metrics rl) \<le> totalFailures (RateLimiter.metrics rl')"
    and "succeeded res \<Longrightarrow>
        totalFailures (RateLimiter.metrics rl') = totalFailures (RateLimiter.metrics rl)"
    and "0 \<le> delayMs (config rl) \<Longrightarrow>
        totalWaitTimeMs (RateLimiter.metrics rl) \<le> totalWaitTimeMs (RateLimiter.metrics rl')"
  using execute_loop_counters [OF refl assms [unfolded execute_def]] by blast+

lemma run_calls_counters:
  "run_calls clock cs rl w = (rs, rl', w') \<Longrightarrow>
     config rl' = config rl \<and>
     totalExecutions (RateLimiter.metrics rl') =
       totalExecutions (RateLimiter.metrics rl) + int (length (filter succeeded rs)) \<and>
     totalRetries (RateLimiter.metrics rl) \<le> totalRetries (RateLimiter.metrics rl') \<and>
     totalFailures (RateLimiter.metrics rl) \<le> totalFailures (RateLimiter.metrics rl') \<and>
     ((\<forall>r \<in> set rs. succeeded r) \<longrightarrow>
        totalFailures (RateLimiter.metrics rl') = totalFailures (RateLimiter.metrics rl)) \<and>
     (0 \<le> delayMs (config rl) \<longrightarrow>
        totalWaitTimeMs (RateLimiter.metrics rl) \<le> totalWaitTimeMs (RateLimiter.metrics rl'))"
proof (induction cs arbitrary: rl w rs)
  case Nil
  then show ?case by simp
next
  case (Cons c cs)
  show ?case
  proof (cases c)
    case AwaitSlot
    obtain waited rl1 w1 where wf: "waitForNextSlot clock rl w = (waited, rl1, w1)"
      by (metis prod_cases3)
    note eff = waitForNextSlot_effect [OF wf]
    obtain sw where sw: "0 \<le> slept sw"
      "totalWaitTimeMs (RateLimiter.metrics rl1) =
         totalWaitTimeMs (RateLimiter.metrics rl) + slept sw"
      using eff(7) by blast
    from Cons.prems AwaitSlot wf have "run_calls clock cs rl1 w1 = (rs, rl', w')"
      by simp
    from Cons.IH [OF this] show ?thesis
      using eff(1,4,5,6) sw by auto
  next
    case (Execute fn opName)
    obtain res rl1 w1 where ex: "execute clock fn opName rl w = (res, rl1, w1)"
      by (metis prod_cases3)
    from Cons.prems Execute ex obtain rs1
      where rc: "run_calls clock cs rl1 w1 = (rs1, rl', w')" and eq: "rs = res # rs1"
      by (auto split: prod.splits)
    note c1 = execute_counters [OF ex]
    from Cons.IH [OF rc] c1 show ?thesis
      unfolding eq by auto
  qed
qed

text \<open>
  Claim C9. Over any sequence of \<^verbatim>\<open>waitForNextSlot\<close> and \<^verbatim>\<open>execute\<close> calls on a limiter whose
  \<open>delayMs\<close> is not negative, each of the four counters ends at least as large as it
  started. After a reset, a sequence in which every \<^verbatim>\<open>execute\<close> returned a result leaves
  \<open>totalExecutions\<close> equal to the number of \<^verbatim>\<open>execute\<close> calls and \<open>totalFailures\<close> equal to 0
  (with or without retries on the way). \<^verbatim>\<open>resetMetrics\<close> sets the four counters to 0.
\<close>

theorem metrics_counters:
  "(0 \<le> delayMs (config rl) \<and> run_calls clock cs rl w = (rs, rl', w') \<longrightarrow>
      counters_le (RateLimiter.metrics rl) (RateLimiter.metrics rl')) \<and>
   (run_calls clock cs (resetMetrics rl) w = (rs, rl', w') \<and> (\<forall>r \<in> set rs. succeeded r) \<longrightarrow>
      totalExecutions (RateLimiter.metrics rl') = int (length rs) \<and>
      totalFailures (RateLimiter.metrics rl') = 0) \<and>
   totalExecutions (RateLimiter.metrics (resetMetrics rl)) = 0 \<and>
   totalWaitTimeMs (RateLimiter.metrics (resetMetrics rl)) = 0 \<and>
   totalRetries (RateLimiter.metrics (resetMetrics rl)) = 0 \<and>
   totalFailures (RateLimiter.metrics (resetMetrics rl)) = 0"
proof (intro conjI impI)
  assume "0 \<le> delayMs (config rl) \<and> run_calls clock cs rl w = (rs, rl', w')"
  then show "counters_le (RateLimiter.metrics rl) (RateLimiter.metrics rl')"
    using run_calls_counters [of clock cs rl w rs rl' w'] by (simp add: counters_le_def)
next
  assume a: "run_calls clock cs (resetMetrics rl) w = (rs, rl', w') \<and> (\<forall>r \<in> set rs. succeeded r)"
  then have f: "filter succeeded rs = rs"
    by simp
  from a run_calls_counters [of clock cs "resetMetrics rl" w rs rl' w']
  show "totalExecutions (RateLimiter.metrics rl') = int (length rs)"
    and "totalFailures (RateLimiter.metrics rl') = 0"
    by (simp_all add: f resetMetrics_def zero_metrics_def)
qed (simp_all add: resetMetrics_def zero_metrics_def)

lemma three_calls_results:
  "fst (run_calls (clock_from 1000 5) three_calls
      (resetMetrics (new_RateLimiter \<lparr>delayMs_opt = Some 10, maxRetries_opt = None\<rparr>)) world0) =
   [Inr ''a'', Inr ''b'', Inr ''c'']"
  by code_simp

theorem metrics_counters_witness:
  "totalExecutions (RateLimiter.metrics (fst (snd (run_calls (clock_from 1000 5) three_calls
      (resetMetrics (new_RateLimiter \<lparr>delayMs_opt = Some 10, maxRetries_opt = None\<rparr>)) world0)))) = 3 \<and>
   totalFailures (RateLimiter.metrics (fst (snd (run_calls (clock_from 1000 5) three_calls
      (resetMetrics (new_RateLimiter \<lparr>delayMs_opt = Some 10, maxRetries_opt = None\<rparr>)) world0)))) = 0 \<and>
   counters_le
     (RateLimiter.metrics (resetMetrics (new_RateLimiter \<lparr>delayMs_opt = Some 10, maxRetries_opt = None\<rparr>)))
     (RateLimiter.metrics (fst (snd (run_calls (clock_from 1000 5) three_calls
      (resetMetrics (new_RateLimiter \<lparr>delayMs_opt = Some 10, maxRetries_opt = None\<rparr>)) world0))))"
proof -
  let ?rl = "new_RateLimiter \<lparr>delayMs_opt = Some 10, maxRetries_opt = None\<rparr>"
  obtain rs rl' w' where r: "run_calls (clock_from 1000 5) three_calls (resetMetrics ?rl) world0 = (rs, rl', w')"
    by (metis prod_cases3)
  with three_calls_results have rs: "rs = [Inr ''a'', Inr ''b'', Inr ''c'']"
    by simp
  have d: "0 \<le> delayMs (config (resetMetrics ?rl))"
    by (simp add: resetMetrics_def new_RateLimiter_def)
  have rr: "resetMetrics (resetMetrics ?rl) = resetMetrics ?rl"
    by (simp add: resetMetrics_def)
  from metrics_counters [of "resetMetrics ?rl" "clock_from 1000 5" three_calls world0 rs rl' w']
  show ?thesis
    using r rs d rr by simp
qed

text \<open>
  Claim C4. Let \<open>maxRetries \<ge> 1\<close> (whatever its value) and let the first invocation of
  the operation fail with an error that is not classified as throttling. Then \<^verbatim>\<open>execute\<close>
  invokes the operation exactly once, sleeps no backoff, adds 1 to \<open>totalFailures\<close>, leaves
  \<open>totalRetries\<close> and \<open>totalExecutions\<close> alone, and throws \<^verbatim>\<open>wrapError(lastError,
  operationName)\<close>: the error itself when it is an \<^verbatim>\<open>ExtractionError\<close>, otherwise an
  \<^verbatim>\<open>ExtractionError\<close> of code \<^verbatim>\<open>UNKNOWN\<close> that carries the operation name, the message and the
  original error as cause.
\<close>

theorem execute_non_throttling_fails_fast:
  fixes outcomes :: "nat \<Rightarrow> thrown + 'a"
  assumes "1 \<le> maxRetries (config rl)"
    and "outcomes (calls w) = Inl err"
    and "\<not> isRateLimitError (as_Error err)"
  shows "\<exists>rl' w' sw.
       execute clock (invoke outcomes) opName rl w =
         (Inl (Thrown (wrapError (Thrown (as_Error err)) (Some opName))), rl', w') \<and>
       (wrapError (Thrown (as_Error err)) (Some opName) =
          (if instanceof_ExtractionError (as_Error err) then as_Error err
           else ExtractionError UNKNOWN (with_context (Some opName) (message (as_Error err)))
                  (Some (as_Error err)))) \<and>
       calls w' = calls w + 1 \<and>
       trace w' = trace w @ sw @ [Invoke] \<and>
       filter (\<lambda>e. \<not> is_SlotWait e) sw = [] \<and>
       totalFailures (RateLimiter.metrics rl') = totalFailures (RateLimiter.metrics rl) + 1 \<and>
       totalRetries (RateLimiter.metrics rl') = totalRetries (RateLimiter.metrics rl) \<and>
       totalExecutions (RateLimiter.metrics rl') = totalExecutions (RateLimiter.metrics rl)"
proof -
  obtain waited rl1 w1 where wf: "waitForNextSlot clock rl w = (waited, rl1, w1)"
    by (metis prod_cases3)
  note eff = waitForNextSlot_effect [OF wf]
  obtain sw where sw: "trace w1 = trace w @ sw" "filter (\<lambda>e. \<not> is_SlotWait e) sw = []"
    using eff(7) by blast
  let ?w2 = "w1\<lparr>calls := Suc (calls w1), trace := trace w1 @ [Invoke]\<rparr>"
  let ?rl' = "rl1\<lparr>RateLimiter.metrics := (RateLimiter.metrics rl1)\<lparr>
      totalFailures := totalFailures (RateLimiter.metrics rl1) + 1\<rparr>\<rparr>"
  have fn: "invoke outcomes w1 = (Inl err, ?w2)"
    using assms(2) eff(2) by (simp add: invoke_def)
  have "execute clock (invoke outcomes) opName rl w =
      (Inl (Thrown (wrapError (Thrown (as_Error err)) (Some opName))), ?rl', ?w2)"
    unfolding execute_def
    by (rule execute_loop_non_throttling [where fn = "invoke outcomes", OF assms(1) wf fn assms(3)])
  moreover have "wrapError (Thrown (as_Error err)) (Some opName) =
          (if instanceof_ExtractionError (as_Error err) then as_Error err
           else ExtractionError UNKNOWN (with_context (Some opName) (message (as_Error err)))
                  (Some (as_Error err)))"
    by (cases "as_Error err") simp_all
  ultimately show ?thesis
    apply (intro exI [of _ ?rl'] exI [of _ ?w2] exI [of _ sw])
    using eff(2,4,5,6) sw by simp
qed

theorem execute_non_throttling_fails_fast_witness:
  "fst (execute (clock_from 1000 5)
      (invoke (failing (Error ''Database connection failed'') :: nat \<Rightarrow> thrown + unit)) ''query''
      (new_RateLimiter \<lparr>delayMs_opt = Some 10, maxRetries_opt = Some 3\<rparr>) world0) =
   Inl (Thrown (ExtractionError UNKNOWN ''query: Database connection failed''
     (Some (Error ''Database connection failed''))))"
  using execute_non_throttling_fails_fast [where rl = "new_RateLimiter \<lparr>delayMs_opt = Some 10, maxRetries_opt = Some 3\<rparr>"
      and outcomes = "failing (Error ''Database connection failed'') :: nat \<Rightarrow> thrown + unit"
      and err = "Thrown (Error ''Database connection failed'')"
      and clock = "clock_from 1000 5" and opName = "''query''" and w = world0]
    not_isRateLimitError_db
  by (auto simp add: new_RateLimiter_def failing_def with_context_def)

text \<open>
  Claim C5. An error is classified as throttling exactly when its message contains,
  ignoring case, one of the five listed strings. An error that is not so classified is
  never retried: at whatever attempt it occurs, the loop ends there, the failure is thrown
  and \<open>totalRetries\<close> is unchanged.
\<close>

theorem throttling_classification:
  "(isRateLimitError e \<longleftrightarrow> (\<exists>p \<in> set throttling_patterns. ci_contains (message e) p)) \<and>
   (as_Error err = e \<and> \<not> (\<exists>p \<in> set throttling_patterns. ci_contains (message e) p) \<and>
    attempt \<le> maxRetries (config rl) \<and>
    waitForNextSlot clock rl w = (waited, rl1, w1) \<and> fn w1 = (Inl err, w2) \<longrightarrow>
      (\<exists>rl'. execute_loop clock fn opName attempt lastError rl w =
               (Inl (Thrown (wrapError (Thrown e) (Some opName))), rl', w2) \<and>
             totalRetries (RateLimiter.metrics rl') = totalRetries (RateLimiter.metrics rl)))"
proof (intro conjI impI)
  show "isRateLimitError e \<longleftrightarrow> (\<exists>p \<in> set throttling_patterns. ci_contains (message e) p)"
    by (rule isRateLimitError_iff)
next
  assume a: "as_Error err = e \<and> \<not> (\<exists>p \<in> set throttling_patterns. ci_contains (message e) p) \<and>
    attempt \<le> maxRetries (config rl) \<and>
    waitForNextSlot clock rl w = (waited, rl1, w1) \<and> fn w1 = (Inl err, w2)"
  then have n: "\<not> isRateLimitError (as_Error err)"
    by (simp add: isRateLimitError_iff)
  from a have le: "attempt \<le> maxRetries (config rl)"
    and wf: "waitForNextSlot clock rl w = (waited, rl1, w1)"
    and fn: "fn w1 = (Inl err, w2)" and e: "as_Error err = e"
    by simp_all
  note eff = waitForNextSlot_effect [OF wf]
  from execute_loop_non_throttling [where fn = fn, OF le wf fn n, of opName lastError]
  show "\<exists>rl'. execute_loop clock fn opName attempt lastError rl w =
               (Inl (Thrown (wrapError (Thrown e) (Some opName))), rl', w2) \<and>
             totalRetries (RateLimiter.metrics rl') = totalRetries (RateLimiter.metrics rl)"
    using eff(5) e by simp
qed

lemma isRateLimitError_quota: "isRateLimitError (Error ''Quota exceeded'')"
  by (simp add: isRateLimitError_def toLowerCase_def toLowerCaseChar_def)

theorem throttling_classification_witness:
  "(\<exists>p \<in> set throttling_patterns. ci_contains ''Quota exceeded'' p) \<and>
   \<not> (\<exists>p \<in> set throttling_patterns. ci_contains ''Database connection failed'' p) \<and>
   fst (execute_loop (clock_from 1000 5)
      (invoke (failing (Error ''Database connection failed'') :: nat \<Rightarrow> thrown + unit)) ''query''
      2 None (new_RateLimiter \<lparr>delayMs_opt = Some 10, maxRetries_opt = Some 3\<rparr>) world0) =
   Inl (Thrown (ExtractionError UNKNOWN ''query: Database connection failed''
     (Some (Error ''Database connection failed''))))"
proof -
  let ?e = "Error ''Database connection failed''"
  let ?rl = "new_RateLimiter \<lparr>delayMs_opt = Some 10, maxRetries_opt = Some 3\<rparr>"
  let ?fn = "invoke (failing ?e :: nat \<Rightarrow> thrown + unit)"
  have q: "\<exists>p \<in> set throttling_patterns. ci_contains ''Quota exceeded'' p"
    using throttling_classification [of "Error ''Quota exceeded''", THEN conjunct1]
      isRateLimitError_quota
    by simp
  have d: "\<not> (\<exists>p \<in> set throttling_patterns. ci_contains (message ?e) p)"
    using throttling_classification [of ?e, THEN conjunct1] not_isRateLimitError_db
    by simp
  obtain waited rl1 w1 where wf: "waitForNextSlot (clock_from 1000 5) ?rl world0 = (waited, rl1, w1)"
    by (metis prod_cases3)
  have fn: "?fn w1 = (Inl (Thrown ?e), w1\<lparr>calls := Suc (calls w1), trace := trace w1 @ [Invoke]\<rparr>)"
    by (simp add: invoke_def failing_def)
  have le: "2 \<le> maxRetries (config ?rl)"
    by (simp add: new_RateLimiter_def)
  from throttling_classification [where e = ?e and err = "Thrown ?e" and attempt = 2 and rl = ?rl
      and clock = "clock_from 1000 5" and w = world0 and waited = waited and ?rl1.0 = rl1 and ?w1.0 = w1
      and ?w2.0 = "w1\<lparr>calls := Suc (calls w1), trace := trace w1 @ [Invoke]\<rparr>"
      and fn = ?fn and opName = "''query''" and lastError = None, THEN conjunct2]
    d le wf fn
  have "fst (execute_loop (clock_from 1000 5) ?fn ''query'' 2 None ?rl world0) =
      Inl (Thrown (wrapError (Thrown ?e) (Some ''query'')))"
    by auto
  with q d show ?thesis
    by (simp add: with_context_def)
qed

section \<open>Properties of the extraction pipeline\<close>

lemma first_seen_Nil [simp]: "first_seen key [] = []"
  by (simp add: first_seen_def)

lemma first_seen_snoc:
  "first_seen key (xs @ [x]) =
     first_seen key xs @ (if key x \<in> key ` set xs then [] else [x])"
proof -
  have f: "filter (\<lambda>i. key ((xs @ [x]) ! i) \<notin> key ` set (take i (xs @ [x]))) [0..<length xs] =
        filter (\<lambda>i. key (xs ! i) \<notin> key ` set (take i xs)) [0..<length xs]"
    by (rule filter_cong) (auto simp: nth_append)
  have m: "map (\<lambda>i. (xs @ [x]) ! i) (filter (\<lambda>i. key (xs ! i) \<notin> key ` set (take i xs)) [0..<length xs]) =
        map (\<lambda>i. xs ! i) (filter (\<lambda>i. key (xs ! i) \<notin> key ` set (take i xs)) [0..<length xs])"
    by (rule map_cong) (auto simp: nth_append)
  have u: "[0..<length (xs @ [x])] = [0..<length xs] @ [length xs]"
    by simp
  have l: "map (\<lambda>i. (xs @ [x]) ! i)
        (filter (\<lambda>i. key ((xs @ [x]) ! i) \<notin> key ` set (take i (xs @ [x]))) [length xs]) =
      (if key x \<in> key ` set xs then [] else [x])"
    by simp
  have "first_seen key (xs @ [x]) =
      map (\<lambda>i. (xs @ [x]) ! i)
        (filter (\<lambda>i. key ((xs @ [x]) ! i) \<notin> key ` set (take i (xs @ [x]))) [0..<length xs]) @
      map (\<lambda>i. (xs @ [x]) ! i)
        (filter (\<lambda>i. key ((xs @ [x]) ! i) \<notin> key ` set (take i (xs @ [x]))) [length xs])"
    unfolding first_seen_def u by (simp only: filter_append map_append)
  also have "\<dots> = first_seen key xs @ (if key x \<in> key ` set xs then [] else [x])"
    unfolding first_seen_def by (simp only: f m l)
  finally show ?thesis .
qed

lemma dedup_loop_append:
  "dedup_loop J (xs @ ys) seen acc =
     dedup_loop J ys (seen \<union> dedup_key J ` set xs) (dedup_loop J xs seen acc)"
proof (induction xs arbitrary: seen acc)
  case Nil
  then show ?case by simp
next
  case (Cons x xs)
  have "insert (dedup_key J x) seen \<union> dedup_key J ` set xs =
        seen \<union> dedup_key J ` set (x # xs)"
    by auto
  moreover have "dedup_key J x \<in> seen \<Longrightarrow> seen \<union> dedup_key J ` set xs = seen \<union> dedup_key J ` set (x # xs)"
    by auto
  ultimately show ?case
    using Cons.IH by (simp add: Let_def)
qed

lemma deduplicateItems_first_seen:
  "deduplicateItems J its = first_seen (dedup_key J) its"
proof (induction its rule: rev_induct)
  case Nil
  then show ?case by (simp add: deduplicateItems_def)
next
  case (snoc x xs)
  have "deduplicateItems J (xs @ [x]) =
      dedup_loop J [x] (dedup_key J ` set xs) (deduplicateItems J xs)"
    by (simp add: deduplicateItems_def dedup_loop_append)
  then show ?case
    using snoc by (simp add: first_seen_snoc Let_def)
qed

lemma length_first_seen: "length (first_seen key xs) \<le> length xs"
proof -
  have "length (first_seen key xs) \<le> length [0..<length xs]"
    unfolding first_seen_def length_map by (rule length_filter_le)
  then show ?thesis by simp
qed


lemma process_chunks_results:
  "process_chunks gen clock ex chunks rl w rs acc = (rl', w', rs', acc') \<Longrightarrow>
     \<exists>new. rs' = rs @ new \<and> length new = length chunks \<and>
           acc' = acc @ concat (map PageExtractionResult.items new) \<and>
           map PageExtractionResult.pageNumber new = map PageChunk.pageNumber chunks"
proof (induction chunks arbitrary: rl w rs acc)
  case Nil
  then show ?case by simp
next
  case (Cons c cs)
  obtain outcome rl1 w1 where ex: "execute clock (extractSingle gen (content c) ex)
      (page_label c) rl w = (outcome, rl1, w1)"
    by (metis prod_cases3)
  from Cons.prems ex have "process_chunks gen clock ex cs rl1 w1 (rs @ [page_result c outcome])
      (acc @ PageExtractionResult.items (page_result c outcome)) = (rl', w', rs', acc')"
    by simp
  from Cons.IH [OF this] obtain new where new:
    "rs' = (rs @ [page_result c outcome]) @ new" "length new = length cs"
    "acc' = (acc @ PageExtractionResult.items (page_result c outcome)) @
        concat (map PageExtractionResult.items new)"
    "map PageExtractionResult.pageNumber new = map PageChunk.pageNumber cs"
    by blast
  have pn: "PageExtractionResult.pageNumber (page_result c outcome) = PageChunk.pageNumber c"
    by (cases outcome) (simp_all add: page_result_def Let_def)
  show ?case
    apply (rule exI [of _ "page_result c outcome # new"])
    using new pn by simp
qed

lemma extractFromPages_unfold:
  assumes "extractFromPages gen clock J chunks ex w = (r, w')"
  obtains rl w1 prs acc where
    "process_chunks gen clock ex chunks (run_limiter ex) (snd (Date_now clock w)) [] [] =
       (rl, w1, prs, acc)"
    and "ExtractionResult.items r = deduplicateItems J acc"
    and "pagesProcessed r = length chunks"
    and "pagesFailed r = length (filter (\<lambda>p. \<not> success p) prs)"
    and "pageResults r = prs"
    and "totalItems (ExtractionResult.metrics r) = length (deduplicateItems J acc)"
    and "itemsBeforeDedup (ExtractionResult.metrics r) = length acc"
    and "averageConfidence (ExtractionResult.metrics r) =
           average_confidence (deduplicateItems J acc)"
    and "trace w' = trace w1" and "calls w' = calls w1"
  using assms
  by (auto simp add: extractFromPages_def run_limiter_def Date_now_def Let_def
      split: prod.splits)


lemma invokes_once_invoke: "invokes_once (invoke outcomes)"
  by (simp add: invokes_once_def invoke_def)

lemma invokes_once_extractSingle: "invokes_once (extractSingle gen text ex)"
  by (simp add: invokes_once_def extractSingle_def invoke_def Let_def split: sum.splits)

lemma execute_loop_waits:
  assumes once: "invokes_once fn"
  shows "n = nat (maxRetries (config rl) + 1 - attempt) \<Longrightarrow>
   execute_loop clock fn opName attempt le rl w = (res, rl', w') \<Longrightarrow>
     \<exists>new. trace w' = trace w @ new \<and>
       totalWaitTimeMs (RateLimiter.metrics rl') =
         totalWaitTimeMs (RateLimiter.metrics rl) + slept new"
proof (induction n arbitrary: attempt le rl w)
  case 0
  then have "\<not> attempt \<le> maxRetries (config rl)"
    by simp
  from execute_loop_skip [OF this, of clock fn opName le w] "0.prems"(2)
  show ?case by auto
next
  case (Suc n)
  then have le: "attempt \<le> maxRetries (config rl)"
    by simp
  obtain waited rl1 w1 where wf: "waitForNextSlot clock rl w = (waited, rl1, w1)"
    by (metis prod_cases3)
  note eff = waitForNextSlot_effect [OF wf]
  obtain sw where sw: "trace w1 = trace w @ sw"
    and tw: "totalWaitTimeMs (RateLimiter.metrics rl1) =
      totalWaitTimeMs (RateLimiter.metrics rl) + slept sw"
    using eff(7) by blast
  obtain r w2 where fn: "fn w1 = (r, w2)"
    by (metis prod.exhaust)
  from once fn have w2: "trace w2 = trace w @ sw @ [Invoke]"
    using sw by (auto simp add: invokes_once_def dest: spec [of _ w1])
  show ?case
  proof (cases r)
    case (Inr v)
    from execute_loop_success [where fn = fn, OF le wf fn [unfolded Inr], of opName le] Suc.prems(2)
    have "trace w' = trace w @ (sw @ [Invoke])"
      and "totalWaitTimeMs (RateLimiter.metrics rl') =
        totalWaitTimeMs (RateLimiter.metrics rl) + slept (sw @ [Invoke])"
      using w2 tw by auto
    then show ?thesis
      by blast
  next
    case (Inl err)
    note fn' = fn [unfolded Inl]
    show ?thesis
    proof (cases "isRateLimitError (as_Error err)")
      case False
      from execute_loop_non_throttling [where fn = fn, OF le wf fn' False, of opName le] Suc.prems(2)
      have "trace w' = trace w @ (sw @ [Invoke])"
        and "totalWaitTimeMs (RateLimiter.metrics rl') =
          totalWaitTimeMs (RateLimiter.metrics rl) + slept (sw @ [Invoke])"
        using w2 tw by auto
      then show ?thesis
        by blast
    next
      case True
      show ?thesis
      proof (cases "attempt < maxRetries (config rl)")
        case False
        with le have am: "attempt = maxRetries (config rl)"
          by simp
        from execute_loop_exhausted [where fn = fn, OF am wf fn' True, of opName le] Suc.prems(2)
        have "trace w' = trace w @ (sw @ [Invoke])"
          and "totalWaitTimeMs (RateLimiter.metrics rl') =
            totalWaitTimeMs (RateLimiter.metrics rl) + slept (sw @ [Invoke])"
          using w2 tw by auto
        then show ?thesis
          by blast
      next
        case lt: True
        let ?b = "2 ^ nat attempt * delayMs (config rl)"
        let ?rl2 = "rl1\<lparr>RateLimiter.metrics := (RateLimiter.metrics rl1)\<lparr>
          totalRetries := totalRetries (RateLimiter.metrics rl1) + 1,
          totalWaitTimeMs := totalWaitTimeMs (RateLimiter.metrics rl1) + ?b\<rparr>\<rparr>"
        let ?w3 = "sleep Backoff ?b w2"
        have step: "execute_loop clock fn opName attempt le rl w =
            execute_loop clock fn opName (attempt + 1) (Some (as_Error err)) ?rl2 ?w3"
          by (rule execute_loop_retry [where fn = fn, OF lt wf fn' True])
        have c2: "config ?rl2 = config rl"
          using eff(1) by simp
        have n: "n = nat (maxRetries (config ?rl2) + 1 - (attempt + 1))"
          using Suc.prems(1) c2 by simp
        have r: "execute_loop clock fn opName (attempt + 1) (Some (as_Error err)) ?rl2 ?w3 =
            (res, rl', w')"
          using step Suc.prems(2) by simp
        from Suc.IH [OF n r] obtain new where new: "trace w' = trace ?w3 @ new"
          and tn: "totalWaitTimeMs (RateLimiter.metrics rl') =
            totalWaitTimeMs (RateLimiter.metrics ?rl2) + slept new"
          by blast
        have "trace w' = trace w @ (sw @ [Invoke, Backoff ?b] @ new)"
          using new w2 by (simp add: sleep_def)
        moreover have "totalWaitTimeMs (RateLimiter.metrics rl') =
            totalWaitTimeMs (RateLimiter.metrics rl) + slept (sw @ [Invoke, Backoff ?b] @ new)"
          using tn tw by simp
        ultimately show ?thesis
          by blast
      qed
    qed
  qed
qed

lemma execute_first_call:
  assumes once: "invokes_once fn"
    and fresh: "delayMs (config rl) - (clock (reads w) - lastCallTime rl) \<le> 0"
    and m: "1 \<le> maxRetries (config rl)"
    and ex: "execute clock fn opName rl w = (res, rl', w')"
  shows "\<exists>rest. trace w' = trace w @ Invoke # rest \<and>
     totalWaitTimeMs (RateLimiter.metrics rl') =
       totalWaitTimeMs (RateLimiter.metrics rl) + slept rest \<and>
     (if throttled (first_attempt clock fn rl w) \<and> 1 < maxRetries (config rl)
      then \<exists>later. rest = Backoff (2 * delayMs (config rl)) # later
      else rest = [])"
proof -
  let ?rl1 = "rl\<lparr>lastCallTime := clock (Suc (reads w))\<rparr>"
  let ?w1 = "w\<lparr>reads := Suc (Suc (reads w))\<rparr>"
  have wf: "waitForNextSlot clock rl w = (0, ?rl1, ?w1)"
    using fresh by (simp add: waitForNextSlot_def Date_now_def Let_def)
  obtain r w2 where fn: "fn ?w1 = (r, w2)"
    by (metis prod.exhaust)
  have fa: "first_attempt clock fn rl w = r"
    by (simp add: first_attempt_def wf fn)
  from once fn have w2: "trace w2 = trace w @ [Invoke]"
    by (auto simp add: invokes_once_def dest: spec [of _ ?w1])
  note ex' = ex [unfolded execute_def]
  show ?thesis
  proof (cases r)
    case (Inr v)
    from execute_loop_success [where fn = fn, OF m wf fn [unfolded Inr], of opName None] ex'
    have "trace w' = trace w @ Invoke # []"
      and "totalWaitTimeMs (RateLimiter.metrics rl') =
        totalWaitTimeMs (RateLimiter.metrics rl) + slept []"
      using w2 by auto
    then show ?thesis
      using fa Inr by auto
  next
    case (Inl err)
    note fn' = fn [unfolded Inl]
    show ?thesis
    proof (cases "isRateLimitError (as_Error err)")
      case False
      from execute_loop_non_throttling [where fn = fn, OF m wf fn' False, of opName None] ex'
      have "trace w' = trace w @ Invoke # []"
        and "totalWaitTimeMs (RateLimiter.metrics rl') =
          totalWaitTimeMs (RateLimiter.metrics rl) + slept []"
        using w2 by auto
      then show ?thesis
        using fa Inl False by auto
    next
      case True
      show ?thesis
      proof (cases "1 < maxRetries (config rl)")
        case False
        with m have am: "1 = maxRetries (config rl)"
          by simp
        from execute_loop_exhausted [where fn = fn, OF am wf fn' True, of opName None] ex'
        have "trace w' = trace w @ Invoke # []"
          and "totalWaitTimeMs (RateLimiter.metrics rl') =
            totalWaitTimeMs (RateLimiter.metrics rl) + slept []"
          using w2 by auto
        then show ?thesis
          using False by auto
      next
        case lt: True
        let ?b = "2 ^ nat 1 * delayMs (config rl)"
        let ?rl2 = "?rl1\<lparr>RateLimiter.metrics := (RateLimiter.metrics ?rl1)\<lparr>
          totalRetries := totalRetries (RateLimiter.metrics ?rl1) + 1,
          totalWaitTimeMs := totalWaitTimeMs (RateLimiter.metrics ?rl1) + ?b\<rparr>\<rparr>"
        let ?w3 = "sleep Backoff ?b w2"
        have step: "execute_loop clock fn opName 1 None rl w =
            execute_loop clock fn opName (1 + 1) (Some (as_Error err)) ?rl2 ?w3"
          by (rule execute_loop_retry [where fn = fn, OF lt wf fn' True])
        with ex' have r: "execute_loop clock fn opName (1 + 1) (Some (as_Error err)) ?rl2 ?w3 =
            (res, rl', w')"
          by simp
        from execute_loop_waits [OF once refl r] obtain new where new: "trace w' = trace ?w3 @ new"
          and tn: "totalWaitTimeMs (RateLimiter.metrics rl') =
            totalWaitTimeMs (RateLimiter.metrics ?rl2) + slept new"
          by blast
        have "trace w' = trace w @ Invoke # (Backoff (2 * delayMs (config rl)) # new)"
          using new w2 by (simp add: sleep_def)
        moreover have "totalWaitTimeMs (RateLimiter.metrics rl') =
            totalWaitTimeMs (RateLimiter.metrics rl) +
              slept (Backoff (2 * delayMs (config rl)) # new)"
          using tn by simp
        ultimately show ?thesis
          using fa Inl True lt by auto
      qed
    qed
  qed
qed


lemma process_chunks_trace:
  "process_chunks gen clock ex chunks rl w rs acc = (rl', w', rs', acc') \<Longrightarrow>
     \<exists>new. trace w' = trace w @ new"
proof (induction chunks arbitrary: rl w rs acc)
  case Nil
  then show ?case by simp
next
  case (Cons c cs)
  obtain outcome rl1 w1 where ex: "execute clock (extractSingle gen (content c) ex)
      (page_label c) rl w = (outcome, rl1, w1)"
    by (metis prod_cases3)
  from execute_loop_waits [OF invokes_once_extractSingle refl ex [unfolded execute_def]]
  obtain t1 where t1: "trace w1 = trace w @ t1"
    by blast
  from Cons.prems ex have "process_chunks gen clock ex cs rl1 w1 (rs @ [page_result c outcome])
      (acc @ PageExtractionResult.items (page_result c outcome)) = (rl', w', rs', acc')"
    by simp
  from Cons.IH [OF this] obtain t2 where "trace w' = trace w1 @ t2"
    by blast
  with t1 have "trace w' = trace w @ (t1 @ t2)"
    by simp
  then show ?case
    by blast
qed

text \<open>
  Claim C10 as stated fails in two ways. First, for an interval longer than the clock
  reading: with the clock at 1793000000000 ms since the epoch and
  \<^verbatim>\<open>delayMs = 2000000000000\<close>, the first slot wait of a fresh limiter sleeps 207000000000 ms
  and adds them to \<open>totalWaitTimeMs\<close>. Second, for a first \<^verbatim>\<open>execute\<close> whose first attempt is
  throttled: with \<^verbatim>\<open>delayMs = 10\<close>, \<^verbatim>\<open>maxRetries = 3\<close> and the clock at 1000, the call backs off
  20 ms, waits 5 ms for the slot of its second attempt, and ends with
  \<open>totalWaitTimeMs = 25\<close>.
\<close>

theorem first_call_no_wait_counterexample:
  "fst (waitForNextSlot (clock_from 1793000000000 1)
         (new_RateLimiter \<lparr>delayMs_opt = Some 2000000000000, maxRetries_opt = None\<rparr>) world0) =
     207000000000 \<and>
   totalWaitTimeMs (RateLimiter.metrics (fst (snd (waitForNextSlot (clock_from 1793000000000 1)
         (new_RateLimiter \<lparr>delayMs_opt = Some 2000000000000, maxRetries_opt = None\<rparr>) world0)))) =
     207000000000 \<and>
   trace (snd (snd (execute (clock_from 1000 5) (invoke (throttled_then 1 ''success'')) ''API call''
         (new_RateLimiter \<lparr>delayMs_opt = Some 10, maxRetries_opt = Some 3\<rparr>) world0))) =
     [Invoke, Backoff 20, SlotWait 5, Invoke] \<and>
   totalWaitTimeMs (RateLimiter.metrics (fst (snd (execute (clock_from 1000 5)
         (invoke (throttled_then 1 ''success'')) ''API call''
         (new_RateLimiter \<lparr>delayMs_opt = Some 10, maxRetries_opt = Some 3\<rparr>) world0)))) = 25"
proof (intro conjI)
  show "fst (waitForNextSlot (clock_from 1793000000000 1)
         (new_RateLimiter \<lparr>delayMs_opt = Some 2000000000000, maxRetries_opt = None\<rparr>) world0) =
     207000000000"
    by (simp add: waitForNextSlot_def Date_now_def sleep_def Let_def clock_from_def world0_def
        new_RateLimiter_def zero_metrics_def)
  show "totalWaitTimeMs (RateLimiter.metrics (fst (snd (waitForNextSlot (clock_from 1793000000000 1)
         (new_RateLimiter \<lparr>delayMs_opt = Some 2000000000000, maxRetries_opt = None\<rparr>) world0)))) =
     207000000000"
    by (simp add: waitForNextSlot_def Date_now_def sleep_def Let_def clock_from_def world0_def
        new_RateLimiter_def zero_metrics_def)
  show "trace (snd (snd (execute (clock_from 1000 5) (invoke (throttled_then 1 ''success''))
         ''API call''
         (new_RateLimiter \<lparr>delayMs_opt = Some 10, maxRetries_opt = Some 3\<rparr>) world0))) =
     [Invoke, Backoff 20, SlotWait 5, Invoke]"
    by code_simp
  show "totalWaitTimeMs (RateLimiter.metrics (fst (snd (execute (clock_from 1000 5)
         (invoke (throttled_then 1 ''success'')) ''API call''
         (new_RateLimiter \<lparr>delayMs_opt = Some 10, maxRetries_opt = Some 3\<rparr>) world0)))) = 25"
    by code_simp
qed

lemma run_limiter_fresh:
  "lastCallTime (run_limiter ex) = 0" "RateLimiter.metrics (run_limiter ex) = zero_metrics"
  by (simp_all add: run_limiter_def new_RateLimiter_def Let_def)

text \<open>
  Claim C10, amended. A freshly constructed limiter has \<open>lastCallTime = 0\<close> and
  \<open>totalWaitTimeMs = 0\<close>. Whenever its \<open>delayMs\<close> does not exceed the clock reading at the call
  (milliseconds since the epoch):

  \<^item> its first \<^verbatim>\<open>waitForNextSlot\<close> returns 0, does not sleep and leaves \<open>totalWaitTimeMs\<close> at 0;

  \<^item> its first \<^verbatim>\<open>execute\<close> (with \<open>maxRetries \<ge> 1\<close>) invokes the operation before anything else,
    and \<open>totalWaitTimeMs\<close> after the call is exactly what was slept after that first
    invocation. That is nothing at all unless the first attempt is throttled and
    \<open>maxRetries > 1\<close>, in which case the backoff of \<open>2 * delayMs\<close> comes next;

  \<^item> \<^verbatim>\<open>extractFromPages\<close> builds a new limiter for every run, so the same holds of the first
    chunk of a run over a non-empty chunk list, whatever ran before: the run starts with the
    generation call of its first chunk, and the limiter's \<open>totalWaitTimeMs\<close> after that chunk
    is what was slept after that call.

  The spacing only constrains calls after the first within one limiter.
\<close>

theorem first_call_no_wait:
  "lastCallTime (new_RateLimiter p) = 0 \<and>
   totalWaitTimeMs (RateLimiter.metrics (new_RateLimiter p)) = 0 \<and>
   (delayMs (config (new_RateLimiter p)) \<le> clock (reads w) \<longrightarrow>
      waitForNextSlot clock (new_RateLimiter p) w =
        (0, (new_RateLimiter p)\<lparr>lastCallTime := clock (Suc (reads w))\<rparr>,
         w\<lparr>reads := Suc (Suc (reads w))\<rparr>) \<and>
      totalWaitTimeMs (RateLimiter.metrics
        (fst (snd (waitForNextSlot clock (new_RateLimiter p) w)))) = 0) \<and>
   (invokes_once fn \<and> delayMs (config (new_RateLimiter p)) \<le> clock (reads w) \<and>
    1 \<le> maxRetries (config (new_RateLimiter p)) \<and>
    execute clock fn opName (new_RateLimiter p) w = (res, rl', w') \<longrightarrow>
      (\<exists>rest. trace w' = trace w @ Invoke # rest \<and>
         totalWaitTimeMs (RateLimiter.metrics rl') = slept rest \<and>
         (if throttled (first_attempt clock fn (new_RateLimiter p) w) \<and>
             1 < maxRetries (config (new_RateLimiter p))
          then \<exists>later. rest = Backoff (2 * delayMs (config (new_RateLimiter p))) # later
          else rest = []))) \<and>
   (chunks \<noteq> [] \<and> delayMs (config (run_limiter ex)) \<le> clock (Suc (reads w)) \<and>
    1 \<le> maxRetries (config (run_limiter ex)) \<and>
    extractFromPages gen clock J chunks ex w = (r, w2) \<longrightarrow>
      (\<exists>rest others.
         trace (snd (state_before gen clock ex chunks w 1)) = trace w @ Invoke # rest \<and>
         trace w2 = trace w @ Invoke # rest @ others \<and>
         totalWaitTimeMs (RateLimiter.metrics (fst (state_before gen clock ex chunks w 1))) =
           slept rest \<and>
         (if throttled (first_attempt clock (extractSingle gen (content (hd chunks)) ex)
                 (run_limiter ex) (snd (Date_now clock w))) \<and>
             1 < maxRetries (config (run_limiter ex))
          then \<exists>later. rest = Backoff (2 * delayMs (config (run_limiter ex))) # later
          else rest = [])))"
proof (intro conjI impI)
  show "lastCallTime (new_RateLimiter p) = 0"
    by (simp add: new_RateLimiter_def)
next
  show "totalWaitTimeMs (RateLimiter.metrics (new_RateLimiter p)) = 0"
    by (simp add: new_RateLimiter_def zero_metrics_def)
next
  assume "delayMs (config (new_RateLimiter p)) \<le> clock (reads w)"
  then show "waitForNextSlot clock (new_RateLimiter p) w =
        (0, (new_RateLimiter p)\<lparr>lastCallTime := clock (Suc (reads w))\<rparr>,
         w\<lparr>reads := Suc (Suc (reads w))\<rparr>)"
    by (simp add: waitForNextSlot_def Date_now_def Let_def new_RateLimiter_def)
  then show "totalWaitTimeMs (RateLimiter.metrics
        (fst (snd (waitForNextSlot clock (new_RateLimiter p) w)))) = 0"
    by (simp add: new_RateLimiter_def zero_metrics_def)
next
  assume a: "invokes_once fn \<and> delayMs (config (new_RateLimiter p)) \<le> clock (reads w) \<and>
    1 \<le> maxRetries (config (new_RateLimiter p)) \<and>
    execute clock fn opName (new_RateLimiter p) w = (res, rl', w')"
  then have once: "invokes_once fn"
    and fresh: "delayMs (config (new_RateLimiter p)) -
      (clock (reads w) - lastCallTime (new_RateLimiter p)) \<le> 0"
    and m: "1 \<le> maxRetries (config (new_RateLimiter p))"
    and ex: "execute clock fn opName (new_RateLimiter p) w = (res, rl', w')"
    by (simp_all add: new_RateLimiter_def)
  have z: "totalWaitTimeMs (RateLimiter.metrics (new_RateLimiter p)) = 0"
    by (simp add: new_RateLimiter_def zero_metrics_def)
  from execute_first_call [where fn = fn and clock = clock and w = w
      and rl = "new_RateLimiter p", OF once fresh m ex]
  show "\<exists>rest. trace w' = trace w @ Invoke # rest \<and>
         totalWaitTimeMs (RateLimiter.metrics rl') = slept rest \<and>
         (if throttled (first_attempt clock fn (new_RateLimiter p) w) \<and>
             1 < maxRetries (config (new_RateLimiter p))
          then \<exists>later. rest = Backoff (2 * delayMs (config (new_RateLimiter p))) # later
          else rest = [])"
    unfolding z by simp
next
  assume a: "chunks \<noteq> [] \<and> delayMs (config (run_limiter ex)) \<le> clock (Suc (reads w)) \<and>
    1 \<le> maxRetries (config (run_limiter ex)) \<and>
    extractFromPages gen clock J chunks ex w = (r, w2)"
  then obtain c cs where chunks: "chunks = c # cs"
    by (cases chunks) auto
  let ?w0 = "snd (Date_now clock w)"
  let ?fn = "extractSingle gen (content c) ex"
  from a obtain rl w1 prs acc where
    pc: "process_chunks gen clock ex chunks (run_limiter ex) ?w0 [] [] = (rl, w1, prs, acc)"
    and tr: "trace w2 = trace w1"
    by (auto elim: extractFromPages_unfold)
  obtain outcome rl1 w3 where ex: "execute clock ?fn (page_label c) (run_limiter ex) ?w0 =
      (outcome, rl1, w3)"
    by (metis prod_cases3)
  have sb: "state_before gen clock ex chunks w 1 = (rl1, w3)"
    by (simp add: state_before_def chunks ex)
  have hd_c: "hd chunks = c"
    using chunks by simp
  have fresh: "delayMs (config (run_limiter ex)) -
      (clock (reads ?w0) - lastCallTime (run_limiter ex)) \<le> 0"
    using a by (simp add: run_limiter_fresh Date_now_def)
  from a have m: "1 \<le> maxRetries (config (run_limiter ex))"
    by simp
  have z: "totalWaitTimeMs (RateLimiter.metrics (run_limiter ex)) = 0"
    by (simp add: run_limiter_fresh zero_metrics_def)
  have t0: "trace ?w0 = trace w"
    by (simp add: Date_now_def)
  from execute_first_call [where clock = clock and w = ?w0 and rl = "run_limiter ex",
      OF invokes_once_extractSingle fresh m ex]
  obtain rest where rest: "trace w3 = trace w @ Invoke # rest"
    and tw: "totalWaitTimeMs (RateLimiter.metrics rl1) = slept rest"
    and sh: "if throttled (first_attempt clock ?fn (run_limiter ex) ?w0) \<and>
             1 < maxRetries (config (run_limiter ex))
          then \<exists>later. rest = Backoff (2 * delayMs (config (run_limiter ex))) # later
          else rest = []"
    unfolding z t0 by auto
  from pc chunks ex have "process_chunks gen clock ex cs rl1 w3 ([] @ [page_result c outcome])
      ([] @ PageExtractionResult.items (page_result c outcome)) = (rl, w1, prs, acc)"
    by simp
  from process_chunks_trace [OF this] obtain new where "trace w1 = trace w3 @ new"
    by blast
  with rest tr have all: "trace w2 = trace w @ Invoke # rest @ new"
    by simp
  have "trace (snd (state_before gen clock ex chunks w 1)) = trace w @ Invoke # rest \<and>
         trace w2 = trace w @ Invoke # rest @ new \<and>
         totalWaitTimeMs (RateLimiter.metrics (fst (state_before gen clock ex chunks w 1))) =
           slept rest \<and>
         (if throttled (first_attempt clock (extractSingle gen (content (hd chunks)) ex)
                 (run_limiter ex) (snd (Date_now clock w))) \<and>
             1 < maxRetries (config (run_limiter ex))
          then \<exists>later. rest = Backoff (2 * delayMs (config (run_limiter ex))) # later
          else rest = [])"
    unfolding sb hd_c using rest all tw sh by simp
  then show "\<exists>rest others.
         trace (snd (state_before gen clock ex chunks w 1)) = trace w @ Invoke # rest \<and>
         trace w2 = trace w @ Invoke # rest @ others \<and>
         totalWaitTimeMs (RateLimiter.metrics (fst (state_before gen clock ex chunks w 1))) =
           slept rest \<and>
         (if throttled (first_attempt clock (extractSingle gen (content (hd chunks)) ex)
                 (run_limiter ex) (snd (Date_now clock w))) \<and>
             1 < maxRetries (config (run_limiter ex))
          then \<exists>later. rest = Backoff (2 * delayMs (config (run_limiter ex))) # later
          else rest = [])"
    by blast
qed


theorem first_call_no_wait_witness:
  "fst (waitForNextSlot (clock_from 1793000000000 1)
         (new_RateLimiter \<lparr>delayMs_opt = None, maxRetries_opt = None\<rparr>) world0) = 0 \<and>
   (\<exists>later.
      trace (snd (snd (execute (clock_from 1000 5) (invoke (throttled_then 1 ''success''))
        ''API call'' (new_RateLimiter \<lparr>delayMs_opt = Some 10, maxRetries_opt = Some 3\<rparr>)
        world0))) = Invoke # Backoff 20 # later \<and>
      totalWaitTimeMs (RateLimiter.metrics (fst (snd (execute (clock_from 1000 5)
        (invoke (throttled_then 1 ''success'')) ''API call''
        (new_RateLimiter \<lparr>delayMs_opt = Some 10, maxRetries_opt = Some 3\<rparr>) world0)))) =
        20 + slept later) \<and>
   trace (snd (snd (execute (clock_from 1000 5) (invoke (returning ''a'')) ''API call''
     (new_RateLimiter \<lparr>delayMs_opt = Some 10, maxRetries_opt = Some 3\<rparr>) world0))) = [Invoke] \<and>
   totalWaitTimeMs (RateLimiter.metrics (fst (snd (execute (clock_from 1000 5)
     (invoke (returning ''a'')) ''API call''
     (new_RateLimiter \<lparr>delayMs_opt = Some 10, maxRetries_opt = Some 3\<rparr>) world0)))) = 0 \<and>
   (\<exists>others. trace (snd (extractFromPages (scripted distinct_responses) (clock_from 1000 5)
      no_stringify three_pages test_extractor world0)) = Invoke # others) \<and>
   totalWaitTimeMs (RateLimiter.metrics (fst (state_before (scripted distinct_responses)
     (clock_from 1000 5) test_extractor three_pages world0 1))) = 0"
proof -
  let ?clock = "clock_from 1000 5"
  let ?p = "\<lparr>delayMs_opt = Some 10, maxRetries_opt = Some 3\<rparr>"
  let ?thr = "invoke (throttled_then 1 ''success'') :: string operation"
  let ?ok = "invoke (returning ''a'') :: string operation"
  let ?gen = "scripted distinct_responses"
  have h1: "delayMs (config (new_RateLimiter \<lparr>delayMs_opt = None, maxRetries_opt = None\<rparr>)) \<le>
      clock_from 1793000000000 1 (reads world0)"
    by (simp add: new_RateLimiter_def DEFAULT_RATE_LIMIT_def clock_from_def world0_def)
  note inst1 = first_call_no_wait [where p = "\<lparr>delayMs_opt = None, maxRetries_opt = None\<rparr>"
      and clock = "clock_from 1793000000000 1" and w = world0,
      THEN conjunct2, THEN conjunct2, THEN conjunct1]
  have a: "fst (waitForNextSlot (clock_from 1793000000000 1)
         (new_RateLimiter \<lparr>delayMs_opt = None, maxRetries_opt = None\<rparr>) world0) = 0"
    using inst1 h1 by simp
  have h2: "delayMs (config (new_RateLimiter ?p)) \<le> ?clock (reads world0)"
    "1 \<le> maxRetries (config (new_RateLimiter ?p))"
    "1 < maxRetries (config (new_RateLimiter ?p))"
    "delayMs (config (new_RateLimiter ?p)) = 10"
    by (simp_all add: new_RateLimiter_def clock_from_def world0_def)
  have t0: "trace world0 = []"
    by (simp add: world0_def)
  obtain res1 rl1 w1 where run1: "execute ?clock ?thr ''API call'' (new_RateLimiter ?p) world0 =
      (res1, rl1, w1)"
    by (metis prod_cases3)
  have h3: "throttled (first_attempt ?clock ?thr (new_RateLimiter ?p) world0)"
    by code_simp
  note inst2 = first_call_no_wait [where p = ?p and clock = ?clock and w = world0
      and fn = ?thr and opName = "''API call''" and res = res1 and rl' = rl1 and w' = w1,
      THEN conjunct2, THEN conjunct2, THEN conjunct2, THEN conjunct1]
  have b: "\<exists>later. trace w1 = Invoke # Backoff 20 # later \<and>
      totalWaitTimeMs (RateLimiter.metrics rl1) = 20 + slept later"
    using inst2 invokes_once_invoke [of "throttled_then 1 ''success''"] h2 h3 run1 t0
    by auto
  obtain res2 rl2 w2 where run2: "execute ?clock ?ok ''API call'' (new_RateLimiter ?p) world0 =
      (res2, rl2, w2)"
    by (metis prod_cases3)
  have h4: "\<not> throttled (first_attempt ?clock ?ok (new_RateLimiter ?p) world0)"
    by code_simp
  note inst3 = first_call_no_wait [where p = ?p and clock = ?clock and w = world0
      and fn = ?ok and opName = "''API call''" and res = res2 and rl' = rl2 and w' = w2,
      THEN conjunct2, THEN conjunct2, THEN conjunct2, THEN conjunct1]
  have c: "trace w2 = [Invoke] \<and> totalWaitTimeMs (RateLimiter.metrics rl2) = 0"
    using inst3 invokes_once_invoke [of "returning ''a''"] h2 h4 run2 t0
    by auto
  obtain r w3 where run3: "extractFromPages ?gen ?clock no_stringify three_pages
      test_extractor world0 = (r, w3)"
    by (metis prod.exhaust)
  have h5: "three_pages \<noteq> []"
    "delayMs (config (run_limiter test_extractor)) \<le> ?clock (Suc (reads world0))"
    "1 \<le> maxRetries (config (run_limiter test_extractor))"
    by (simp_all add: three_pages_def run_limiter_def test_extractor_def new_RateLimiter_def
        clock_from_def world0_def)
  have h6: "\<not> throttled (first_attempt ?clock
      (extractSingle ?gen (content (hd three_pages)) test_extractor)
      (run_limiter test_extractor) (snd (Date_now ?clock world0)))"
    by code_simp
  note inst4 = first_call_no_wait [where chunks = three_pages and ex = test_extractor
      and clock = ?clock and w = world0 and gen = ?gen and J = no_stringify
      and r = r and ?w2.0 = w3,
      THEN conjunct2, THEN conjunct2, THEN conjunct2, THEN conjunct2]
  have d: "(\<exists>others. trace w3 = Invoke # others) \<and>
      totalWaitTimeMs (RateLimiter.metrics (fst (state_before ?gen ?clock test_extractor
        three_pages world0 1))) = 0"
    using inst4 h5 h6 run3 t0 by auto
  from a b c d run1 run2 run3 show ?thesis
    by simp
qed

lemma totalConfidence_numeric:
  "\<forall>item \<in> set its. numeric_or_absent item \<Longrightarrow>
   totalConfidence its (Some s) = Some (s + sum_list (map confidence_or_0 its))"
proof (induction its arbitrary: s)
  case Nil
  then show ?case by simp
next
  case (Cons a its)
  from Cons.prems have "numeric_or_absent a"
    by simp
  then have "confidence_addend (map_of a ''confidence'') = Some (confidence_or_0 a)"
    by (auto simp add: numeric_or_absent_def confidence_or_0_def split: option.splits jsval.splits)
  with Cons show ?case
    by (simp add: add.assoc)
qed

lemma average_confidence_Undefined:
  "average_confidence its \<noteq> Undefined \<longleftrightarrow> its \<noteq> [] \<and> is_number (map_of (hd its) ''confidence'')"
  by (auto simp add: average_confidence_def split: option.splits)

text \<open>
  Claim C1 as stated fails: one page returning two items, the first with
  \<^verbatim>\<open>confidence = 0.8\<close>, the second without a \<^verbatim>\<open>confidence\<close> field, yields
  \<^verbatim>\<open>averageConfidence = 0.4\<close> rather than no value.
\<close>

theorem averageConfidence_counterexample:
  "averageConfidence (ExtractionResult.metrics (fst (extractFromPages
     (scripted [Inr [[(''description'', JStr ''a''), (''confidence'', JNum 0.8)],
                     [(''description'', JStr ''b'')]]])
     (clock_from 1000 5) no_stringify [\<lparr>content = ''Page 1'', pageNumber = 1\<rparr>]
     test_extractor world0))) = Number 0.4 \<and>
   ExtractionResult.items (fst (extractFromPages
     (scripted [Inr [[(''description'', JStr ''a''), (''confidence'', JNum 0.8)],
                     [(''description'', JStr ''b'')]]])
     (clock_from 1000 5) no_stringify [\<lparr>content = ''Page 1'', pageNumber = 1\<rparr>]
     test_extractor world0)) =
     [[(''description'', JStr ''a''), (''confidence'', JNum 0.8)], [(''description'', JStr ''b'')]] \<and>
   map_of [(''description'', JStr ''b'')] ''confidence'' = None"
  by code_simp

text \<open>
  Claim C1, amended. \<^verbatim>\<open>metrics.averageConfidence\<close> is present exactly when the deduplicated
  item list is not empty and its first item has a numeric \<^verbatim>\<open>confidence\<close>. When it is present
  and every item's \<^verbatim>\<open>confidence\<close> is a number or absent, its value is the sum of the numeric
  confidences divided by the number of all items: an item without the field counts as 0,
  and the value is the arithmetic mean when every item has the field.
\<close>

theorem averageConfidence_first_item:
  assumes "extractFromPages gen clock J chunks ex w = (r, w')"
  shows "(averageConfidence (ExtractionResult.metrics r) \<noteq> Undefined \<longleftrightarrow>
            ExtractionResult.items r \<noteq> [] \<and>
            is_number (map_of (hd (ExtractionResult.items r)) ''confidence'')) \<and>
         (ExtractionResult.items r \<noteq> [] \<and>
          is_number (map_of (hd (ExtractionResult.items r)) ''confidence'') \<and>
          (\<forall>item \<in> set (ExtractionResult.items r). numeric_or_absent item) \<longrightarrow>
            averageConfidence (ExtractionResult.metrics r) =
              Number (sum_list (map confidence_or_0 (ExtractionResult.items r)) /
                      real (length (ExtractionResult.items r))))"
proof -
  from assms obtain acc where
    i: "ExtractionResult.items r = deduplicateItems J acc"
    and a: "averageConfidence (ExtractionResult.metrics r) =
           average_confidence (deduplicateItems J acc)"
    by (rule extractFromPages_unfold)
  from a i have av: "averageConfidence (ExtractionResult.metrics r) =
      average_confidence (ExtractionResult.items r)"
    by simp
  have "average_confidence (ExtractionResult.items r) \<noteq> Undefined \<longleftrightarrow>
            ExtractionResult.items r \<noteq> [] \<and>
            is_number (map_of (hd (ExtractionResult.items r)) ''confidence'')"
    by (rule average_confidence_Undefined)
  moreover have "average_confidence (ExtractionResult.items r) =
              Number (sum_list (map confidence_or_0 (ExtractionResult.items r)) /
                      real (length (ExtractionResult.items r)))"
    if "ExtractionResult.items r \<noteq> [] \<and>
          is_number (map_of (hd (ExtractionResult.items r)) ''confidence'') \<and>
          (\<forall>item \<in> set (ExtractionResult.items r). numeric_or_absent item)"
    using that by (simp add: average_confidence_def totalConfidence_numeric)
  ultimately show ?thesis
    unfolding av by blast
qed

lemma confident_run_items:
  "ExtractionResult.items (fst (extractFromPages (scripted [Inr confident_items])
      (clock_from 1000 5) no_stringify one_page test_extractor world0)) = confident_items"
  by code_simp

theorem averageConfidence_first_item_witness:
  "averageConfidence (ExtractionResult.metrics (fst (extractFromPages
      (scripted [Inr confident_items]) (clock_from 1000 5) no_stringify one_page
      test_extractor world0))) = Number 0.7"
proof -
  obtain r w' where run: "extractFromPages (scripted [Inr confident_items])
      (clock_from 1000 5) no_stringify one_page test_extractor world0 = (r, w')"
    by (metis prod.exhaust)
  with confident_run_items have i: "ExtractionResult.items r = confident_items"
    by simp
  have h: "ExtractionResult.items r \<noteq> [] \<and>
          is_number (map_of (hd (ExtractionResult.items r)) ''confidence'') \<and>
          (\<forall>item \<in> set (ExtractionResult.items r). numeric_or_absent item)"
    unfolding i by (simp add: confident_items_def numeric_or_absent_def)
  from averageConfidence_first_item [OF run, THEN conjunct2] h
  have "averageConfidence (ExtractionResult.metrics r) =
              Number (sum_list (map confidence_or_0 (ExtractionResult.items r)) /
                      real (length (ExtractionResult.items r)))"
    by blast
  then show ?thesis
    unfolding run i by (simp add: confident_items_def confidence_or_0_def)
qed

text \<open>
  Claim C6. \<^verbatim>\<open>deduplicateItems\<close> keeps, in their order, exactly the items no earlier item
  shares the key of. The key is the \<^verbatim>\<open>description\<close> lower-cased and trimmed when that
  property is a string, and the serialisation of the whole item otherwise. In the result of
  a run, \<open>itemsBeforeDedup\<close> is the number of items of all page results, \<open>items\<close> is their
  deduplication, hence \<open>items.length \<le> itemsBeforeDedup\<close>. Two items whose descriptions agree
  after lower-casing and trimming reduce to the first of them.
\<close>

theorem deduplication_first_seen:
  "deduplicateItems J its = first_seen (dedup_key J) its \<and>
   (map_of x ''description'' = Some (JStr d) \<longrightarrow> dedup_key J x = trim (toLowerCase d)) \<and>
   ((\<forall>d. map_of x ''description'' \<noteq> Some (JStr d)) \<longrightarrow> dedup_key J x = J x) \<and>
   (extractFromPages gen clock J chunks ex w = (r, w') \<longrightarrow>
      itemsBeforeDedup (ExtractionResult.metrics r) =
        length (concat (map PageExtractionResult.items (pageResults r))) \<and>
      ExtractionResult.items r =
        deduplicateItems J (concat (map PageExtractionResult.items (pageResults r))) \<and>
      totalItems (ExtractionResult.metrics r) = length (ExtractionResult.items r) \<and>
      length (ExtractionResult.items r) \<le> itemsBeforeDedup (ExtractionResult.metrics r)) \<and>
   (map_of y ''description'' = Some (JStr d1) \<and> map_of z ''description'' = Some (JStr d2) \<and>
    trim (toLowerCase d1) = trim (toLowerCase d2) \<longrightarrow>
      deduplicateItems J [y, z] = [y])"
proof (intro conjI impI)
  show "deduplicateItems J its = first_seen (dedup_key J) its"
    by (rule deduplicateItems_first_seen)
next
  assume "map_of x ''description'' = Some (JStr d)"
  then show "dedup_key J x = trim (toLowerCase d)"
    by (simp add: dedup_key_def)
next
  assume "\<forall>d. map_of x ''description'' \<noteq> Some (JStr d)"
  then show "dedup_key J x = J x"
    by (auto simp add: dedup_key_def split: option.splits jsval.splits)
next
  assume run: "extractFromPages gen clock J chunks ex w = (r, w')"
  then obtain rl w1 prs acc where
    pc: "process_chunks gen clock ex chunks (run_limiter ex) (snd (Date_now clock w)) [] [] =
       (rl, w1, prs, acc)"
    and i: "ExtractionResult.items r = deduplicateItems J acc"
    and pr: "pageResults r = prs"
    and t: "totalItems (ExtractionResult.metrics r) = length (deduplicateItems J acc)"
    and b: "itemsBeforeDedup (ExtractionResult.metrics r) = length acc"
    by (rule extractFromPages_unfold)
  from process_chunks_results [OF pc] have acc: "acc = concat (map PageExtractionResult.items prs)"
    by auto
  show "itemsBeforeDedup (ExtractionResult.metrics r) =
        length (concat (map PageExtractionResult.items (pageResults r)))"
    using b acc pr by simp
  show "ExtractionResult.items r =
        deduplicateItems J (concat (map PageExtractionResult.items (pageResults r)))"
    using i acc pr by simp
  show "totalItems (ExtractionResult.metrics r) = length (ExtractionResult.items r)"
    using t i by simp
  show "length (ExtractionResult.items r) \<le> itemsBeforeDedup (ExtractionResult.metrics r)"
    using i b by (simp add: deduplicateItems_first_seen length_first_seen)
next
  assume "map_of y ''description'' = Some (JStr d1) \<and> map_of z ''description'' = Some (JStr d2) \<and>
    trim (toLowerCase d1) = trim (toLowerCase d2)"
  then show "deduplicateItems J [y, z] = [y]"
    by (simp add: deduplicateItems_def dedup_key_def Let_def)
qed

lemma shared_run_pageResults:
  "map PageExtractionResult.items (pageResults (fst (extractFromPages
      (scripted [Inr [original_item], Inr [duplicate_item]])
      (clock_from 1000 5) no_stringify two_pages test_extractor world0))) =
   [[original_item], [duplicate_item]]"
  by code_simp

lemma shared_keys:
  "trim (toLowerCase ''Shared ID'') = trim (toLowerCase ''  shared id '')"
  by code_simp

theorem deduplication_first_seen_witness:
  "ExtractionResult.items (fst (extractFromPages
      (scripted [Inr [original_item], Inr [duplicate_item]])
      (clock_from 1000 5) no_stringify two_pages test_extractor world0)) = [original_item] \<and>
   itemsBeforeDedup (ExtractionResult.metrics (fst (extractFromPages
      (scripted [Inr [original_item], Inr [duplicate_item]])
      (clock_from 1000 5) no_stringify two_pages test_extractor world0))) = 2"
proof -
  obtain r w' where run: "extractFromPages (scripted [Inr [original_item], Inr [duplicate_item]])
      (clock_from 1000 5) no_stringify two_pages test_extractor world0 = (r, w')"
    by (metis prod.exhaust)
  with shared_run_pageResults have pr:
    "map PageExtractionResult.items (pageResults r) = [[original_item], [duplicate_item]]"
    by simp
  have d: "map_of original_item ''description'' = Some (JStr ''Shared ID'') \<and>
      map_of duplicate_item ''description'' = Some (JStr ''  shared id '') \<and>
      trim (toLowerCase ''Shared ID'') = trim (toLowerCase ''  shared id '')"
    using shared_keys by (simp add: original_item_def duplicate_item_def)
  note t = deduplication_first_seen [where J = no_stringify and gen = "scripted [Inr [original_item], Inr [duplicate_item]]"
      and clock = "clock_from 1000 5" and chunks = two_pages and ex = test_extractor and w = world0
      and r = r and w' = w' and y = original_item and z = duplicate_item
      and ?d1.0 = "''Shared ID''" and ?d2.0 = "''  shared id ''"]
  from t [THEN conjunct2, THEN conjunct2, THEN conjunct2, THEN conjunct1] run
  have 1: "itemsBeforeDedup (ExtractionResult.metrics r) =
        length (concat (map PageExtractionResult.items (pageResults r)))"
    and 2: "ExtractionResult.items r =
        deduplicateItems no_stringify (concat (map PageExtractionResult.items (pageResults r)))"
    by blast+
  from t [THEN conjunct2, THEN conjunct2, THEN conjunct2, THEN conjunct2] d
  have 3: "deduplicateItems no_stringify [original_item, duplicate_item] = [original_item]"
    by blast
  from 1 2 3 show ?thesis
    unfolding run pr by simp
qed













section \<open>Properties of the chunker\<close>

text \<open>
  What the loop does for every input. With \<^verbatim>\<open>maxChunkSize \<ge> 1\<close> it returns; the content of
  every chunk has at most \<^verbatim>\<open>maxChunkSize + 1\<close> characters; every chunk after the first is
  non-empty, and so is the first when the input starts with a character that is not white
  space; page numbers count from 1. With \<^verbatim>\<open>maxChunkSize = 0\<close> and an input that is not blank
  the split index is 0 at every iteration and the loop never returns.
\<close>

lemma length_trim: "length (trim s) \<le> length s"
proof -
  have "length (dropWhile isWhitespace (rev (dropWhile isWhitespace s))) \<le>
      length (rev (dropWhile isWhitespace s))"
    by (rule length_dropWhile_le)
  also have "\<dots> = length (dropWhile isWhitespace s)"
    by simp
  also have "\<dots> \<le> length s"
    by (rule length_dropWhile_le)
  finally show ?thesis
    by (simp add: trim_def)
qed

lemma dropWhile_snoc_keeps:
  "\<not> P x \<Longrightarrow> \<exists>zs. dropWhile P (ys @ [x]) = zs @ [x]"
  by (induction ys) auto

lemma trim_keeps_head:
  assumes "s \<noteq> []" and "\<not> isWhitespace (hd s)"
  shows "trim s \<noteq> []" and "hd (trim s) = hd s"
proof -
  from assms have d: "dropWhile isWhitespace s = s"
    by (cases s) simp_all
  from assms(1) obtain ys where r: "rev s = ys @ [hd s]"
    by (cases s) simp_all
  from dropWhile_snoc_keeps [where P = isWhitespace and x = "hd s" and ys = ys, OF assms(2)]
  obtain zs
    where "dropWhile isWhitespace (rev s) = zs @ [hd s]"
    unfolding r by blast
  then have t: "trim s = hd s # rev zs"
    by (simp add: trim_def d)
  from t show "trim s \<noteq> []" by simp
  from t show "hd (trim s) = hd s" by simp
qed

lemma trim_head:
  "trim s \<noteq> [] \<Longrightarrow> \<not> isWhitespace (hd (trim s))"
proof -
  assume ne: "trim s \<noteq> []"
  let ?t = "dropWhile isWhitespace s"
  have tne: "?t \<noteq> []"
  proof
    assume e: "?t = []"
    have "trim s = rev (dropWhile isWhitespace (rev []))"
      unfolding trim_def e ..
    then have "trim s = []"
      by simp
    with ne show False ..
  qed
  then have h: "\<not> isWhitespace (hd ?t)"
    by (rule hd_dropWhile)
  have "trim s = trim ?t"
    by (simp only: trim_def dropWhile_idem)
  with trim_keeps_head(2) [OF tne h] have "hd (trim s) = hd ?t"
    by simp
  with h show ?thesis by simp
qed

lemma lastIndexOf_from_bounds:
  "- 1 \<le> lastIndexOf_from s p i \<and> lastIndexOf_from s p i \<le> int i"
  by (induction i) auto

lemma lastIndexOf_bounds:
  "- 1 \<le> lastIndexOf s p pos"
  "lastIndexOf s p pos \<le> max pos 0"
  "length p \<le> length s \<Longrightarrow> lastIndexOf s p pos \<le> int (length s) - int (length p)"
  "length s < length p \<Longrightarrow> lastIndexOf s p pos = - 1"
  using lastIndexOf_from_bounds [of s p "nat (min (max pos 0) (int (length s - length p)))"]
  by (auto simp add: lastIndexOf_def)

lemma half_less: "(real_of_int a > real_of_int b * 0.5) = (b < 2 * a)"
proof -
  have "(real_of_int a > real_of_int b * 0.5) = (real_of_int b < real_of_int (2 * a))"
    by (simp add: field_simps)
  then show ?thesis
    by (simp only: of_int_less_iff)
qed

lemma splitIndex_of_bounds:
  assumes "1 \<le> m" and "s \<noteq> []"
  shows "1 \<le> splitIndex_of m s" and "splitIndex_of m s \<le> m + 1"
    and "splitIndex_of m s \<le> int (length s)"
proof -
  let ?pb = "lastIndexOf s [CHR 0x0A, CHR 0x0A] m"
  let ?sb = "lastIndexOf s ''. '' m"
  note pb = lastIndexOf_bounds [where s = s and p = "[CHR 0x0A, CHR 0x0A]" and pos = m]
  note sb = lastIndexOf_bounds [where s = s and p = "''. ''" and pos = m]
  have l: "1 \<le> int (length s)"
    using assms(2) by (cases s) simp_all
  show "1 \<le> splitIndex_of m s"
    using assms(1) l by (auto simp add: splitIndex_of_def Let_def half_less)
  show "splitIndex_of m s \<le> m + 1"
    using assms(1) pb(2) sb(2) by (auto simp add: splitIndex_of_def Let_def half_less)
  show "splitIndex_of m s \<le> int (length s)"
  proof (cases "length s < 2")
    case True
    then have "?pb = - 1" "?sb = - 1"
      using pb(4) sb(4) by simp_all
    then show ?thesis
      using assms(1) by (auto simp add: splitIndex_of_def Let_def half_less)
  next
    case False
    then have "?pb \<le> int (length s) - 2" "?sb \<le> int (length s) - 2"
      using pb(3) sb(3) by simp_all
    then show ?thesis
      by (auto simp add: splitIndex_of_def Let_def half_less)
  qed
qed


lemma slice_prefix: "0 \<le> k \<Longrightarrow> slice s 0 k = take (nat k) s"
  by (simp add: slice_def slice_index_def min_def)

lemma slice_from_drop: "0 \<le> k \<Longrightarrow> slice_from s k = drop (nat k) s"
  by (simp add: slice_from_def slice_index_def min_def)

lemma chunk_loop_returns:
  assumes m: "1 \<le> m"
  shows "\<exists>new. chunk_loop m remaining n chunks = Some (chunks @ new) \<and>
          (\<forall>c \<in> set new. int (length (content c)) \<le> m + 1) \<and>
          (\<forall>c \<in> set (tl new). content c \<noteq> []) \<and>
          (remaining \<noteq> [] \<and> \<not> isWhitespace (hd remaining) \<longrightarrow>
             (\<forall>c \<in> set new. content c \<noteq> [])) \<and>
          map PageChunk.pageNumber new = map (\<lambda>i. n + int i) [0..<length new]"
proof (induction "length remaining" arbitrary: remaining n chunks rule: less_induct)
  case less
  show ?case
  proof (cases "remaining = []")
    case True
    then have "chunk_loop m remaining n chunks = Some (chunks @ [])"
      by (subst chunk_loop.simps) simp
    then show ?thesis
      by (intro exI [of _ "[]"]) simp
  next
    case False
    let ?k = "splitIndex_of m remaining"
    note k = splitIndex_of_bounds [OF m False]
    let ?c = "\<lparr>content = trim (slice remaining 0 ?k), pageNumber = n\<rparr>"
    let ?rest = "trim (slice_from remaining ?k)"
    have pre: "slice remaining 0 ?k = take (nat ?k) remaining"
      using k(1) by (simp add: slice_prefix)
    have post: "slice_from remaining ?k = drop (nat ?k) remaining"
      using k(1) by (simp add: slice_from_drop)
    have "length ?rest \<le> length (drop (nat ?k) remaining)"
      unfolding post by (rule length_trim)
    also have "\<dots> < length remaining"
      using k(1) False by simp
    finally have shorter: "length ?rest < length remaining" .
    from less [OF shorter, of "n + 1" "chunks @ [?c]"] obtain new where
      r: "chunk_loop m ?rest (n + 1) (chunks @ [?c]) = Some ((chunks @ [?c]) @ new)"
      and b: "\<forall>c \<in> set new. int (length (content c)) \<le> m + 1"
      and e: "?rest \<noteq> [] \<and> \<not> isWhitespace (hd ?rest) \<longrightarrow> (\<forall>c \<in> set new. content c \<noteq> [])"
      and p: "map PageChunk.pageNumber new = map (\<lambda>i. n + 1 + int i) [0..<length new]"
      by blast
    have step: "chunk_loop m remaining n chunks = chunk_loop m ?rest (n + 1) (chunks @ [?c])"
      using False by (subst chunk_loop.simps) simp
    have 1: "chunk_loop m remaining n chunks = Some (chunks @ (?c # new))"
      using step r by simp
    have "length (trim (take (nat ?k) remaining)) \<le> length (take (nat ?k) remaining)"
      by (rule length_trim)
    then have "length (content ?c) \<le> nat ?k"
      unfolding pre by simp
    then have "int (length (content ?c)) \<le> m + 1"
      using k(1,2) by linarith
    with b have 2: "\<forall>c \<in> set (?c # new). int (length (content c)) \<le> m + 1"
      by simp
    have ne: "\<forall>c \<in> set new. content c \<noteq> []"
    proof (cases "?rest = []")
      case True
      with r have "chunk_loop m [] (n + 1) (chunks @ [?c]) = Some ((chunks @ [?c]) @ new)"
        by simp
      then have "new = []"
        by (subst (asm) chunk_loop.simps) simp
      then show ?thesis by simp
    next
      case False
      with trim_head [of "slice_from remaining ?k"] e show ?thesis
        by blast
    qed
    then have 3: "\<forall>c \<in> set (tl (?c # new)). content c \<noteq> []"
      by simp
    have 4: "remaining \<noteq> [] \<and> \<not> isWhitespace (hd remaining) \<longrightarrow>
        (\<forall>c \<in> set (?c # new). content c \<noteq> [])"
    proof
      assume h: "remaining \<noteq> [] \<and> \<not> isWhitespace (hd remaining)"
      have t: "take (nat ?k) remaining \<noteq> []" "hd (take (nat ?k) remaining) = hd remaining"
        using k(1) False by (cases remaining; cases "nat ?k"; simp)+
      from trim_keeps_head(1) [of "take (nat ?k) remaining"] t h
      have "content ?c \<noteq> []"
        unfolding pre by simp
      with ne show "\<forall>c \<in> set (?c # new). content c \<noteq> []"
        by simp
    qed
    have "[0..<Suc (length new)] = 0 # [Suc 0..<Suc (length new)]"
      by (rule upt_conv_Cons) simp
    also have "[Suc 0..<Suc (length new)] = map Suc [0..<length new]"
      by (rule map_Suc_upt [symmetric])
    finally have u: "[0..<length (?c # new)] = 0 # map Suc [0..<length new]"
      by simp
    have 5: "map PageChunk.pageNumber (?c # new) =
        map (\<lambda>i. n + int i) [0..<length (?c # new)]"
      unfolding u using p by (simp add: comp_def add.assoc)
    from 1 2 3 4 5 show ?thesis
      by blast
  qed
qed


lemma chunkBySize_returns:
  assumes "1 \<le> maxChunkSize"
  shows "\<exists>chunks. chunkBySize input maxChunkSize = Some chunks \<and>
          (\<forall>c \<in> set chunks. int (length (content c)) \<le> maxChunkSize + 1) \<and>
          (\<forall>c \<in> set (tl chunks). content c \<noteq> []) \<and>
          (input \<noteq> [] \<and> \<not> isWhitespace (hd input) \<longrightarrow>
             (\<forall>c \<in> set chunks. content c \<noteq> [])) \<and>
          map PageChunk.pageNumber chunks = map (\<lambda>i. 1 + int i) [0..<length chunks]"
  using chunk_loop_returns [OF assms, of input 1 "[]"] by (simp add: chunkBySize_def)

lemma trim_trim: "trim (trim s) = trim s"
proof (cases "trim s = []")
  case True
  have "trim [] = []"
    by (simp add: trim_def)
  with True show ?thesis
    by simp
next
  case False
  let ?t = "trim s"
  from trim_head [OF False] have h: "\<not> isWhitespace (hd ?t)" .
  then have d: "dropWhile isWhitespace ?t = ?t"
    using False by (cases ?t) simp_all
  have "dropWhile isWhitespace (rev ?t) = rev ?t"
  proof -
    let ?u = "dropWhile isWhitespace (rev (dropWhile isWhitespace s))"
    have "rev ?t = ?u"
      by (simp add: trim_def)
    moreover have "dropWhile isWhitespace ?u = ?u"
      by (rule dropWhile_idem)
    ultimately show ?thesis
      by simp
  qed
  then show ?thesis
    unfolding trim_def [of ?t] d by simp
qed

lemma splitIndex_of_zero: "s \<noteq> [] \<Longrightarrow> splitIndex_of 0 s = 0"
  using lastIndexOf_bounds(2) [where s = s and p = "[CHR 0x0A, CHR 0x0A]" and pos = 0]
    lastIndexOf_bounds(2) [where s = s and p = "''. ''" and pos = 0]
  by (auto simp add: splitIndex_of_def Let_def half_less)

lemma chunk_loop_zero_diverges:
  assumes r: "chunk_loop m remaining n chunks = Some result"
  shows "\<not> (m = 0 \<and> trim remaining \<noteq> [])"
proof (rule chunk_loop.raw_induct
    [where P = "\<lambda>m remaining n chunks result. \<not> (m = 0 \<and> trim remaining \<noteq> [])", OF _ r])
  fix loop :: "int \<Rightarrow> string \<Rightarrow> int \<Rightarrow> PageChunk list \<Rightarrow> PageChunk list option"
    and m remaining n chunks result
  assume ih: "\<And>m' remaining' n' chunks' y. loop m' remaining' n' chunks' = Some y \<Longrightarrow>
      \<not> (m' = 0 \<and> trim remaining' \<noteq> [])"
    and body: "(if 0 < length remaining
      then loop m (trim (slice_from remaining (splitIndex_of m remaining))) (n + 1)
             (chunks @ [\<lparr>content = trim (slice remaining 0 (splitIndex_of m remaining)),
                         pageNumber = n\<rparr>])
      else Some chunks) = Some result"
  show "\<not> (m = 0 \<and> trim remaining \<noteq> [])"
  proof
    assume a: "m = 0 \<and> trim remaining \<noteq> []"
    have ne: "remaining \<noteq> []"
    proof
      assume "remaining = []"
      then have "trim remaining = []"
        by (simp add: trim_def)
      with a show False
        by simp
    qed
    with a have k: "splitIndex_of m remaining = 0"
      by (simp add: splitIndex_of_zero)
    have "slice_from remaining 0 = remaining"
      by (simp add: slice_from_def slice_index_def)
    with body ne k have "loop m (trim remaining) (n + 1)
        (chunks @ [\<lparr>content = trim (slice remaining 0 0), pageNumber = n\<rparr>]) = Some result"
      by simp
    from ih [OF this] have "\<not> (m = 0 \<and> trim (trim remaining) \<noteq> [])" .
    with a show False
      by (simp only: trim_trim) simp
  qed
qed

lemma chunkBySize_zero_diverges:
  "trim input \<noteq> [] \<Longrightarrow> chunkBySize input 0 = None"
  using chunk_loop_zero_diverges [of 0 input 1 "[]"]
  by (cases "chunkBySize input 0") (auto simp add: chunkBySize_def)

text \<open>
  Claim C7 at a concrete input. The claim bounds the content of every chunk by
  \<^verbatim>\<open>maxChunkSize\<close>, which the repository documents as the maximum number of characters per
  chunk. For the text \<^verbatim>\<open>abcd. efgh\<close> and \<^verbatim>\<open>maxChunkSize = 4\<close>, the sentence break found by
  \<^verbatim>\<open>lastIndexOf(". ", 4)\<close> is at index 4, which is above half of the maximum, so the split
  index is 5 and the first chunk is \<^verbatim>\<open>abcd.\<close>, of length 5: one more than the maximum.
\<close>

theorem chunkBySize_exceeds_maxChunkSize:
  "chunkBySize ''abcd. efgh'' 4 =
     Some [\<lparr>content = ''abcd.'', pageNumber = 1\<rparr>, \<lparr>content = ''efgh'', pageNumber = 2\<rparr>] \<and>
   splitIndex_of 4 ''abcd. efgh'' = 5 \<and>
   \<not> int (length ''abcd.'') \<le> 4"
  by code_simp

text \<open>
  Two more runs of the loop: leading white space of the input is cut into a chunk of its
  own, whose trimmed content is empty, and a text of white space alone yields one empty
  chunk.
\<close>

lemma chunkBySize_leading_whitespace:
  "chunkBySize ''   abc'' 2 =
     Some [\<lparr>content = [], pageNumber = 1\<rparr>, \<lparr>content = ''ab'', pageNumber = 2\<rparr>,
           \<lparr>content = ''c'', pageNumber = 3\<rparr>] \<and>
   chunkBySize '' '' 2 = Some [\<lparr>content = [], pageNumber = 1\<rparr>]"
  by code_simp

end
